theory Spec2Isabelle
  imports Complex_Main
begin

section \<open>Betweenness centrality (src/metrics/centrality/betweenness.js)\<close>

text \<open>
  The module exports \<^verbatim>\<open>betweennessCentrality\<close> and \<^verbatim>\<open>edgeBetweennessCentrality\<close>,
  each with an \<^verbatim>\<open>assign\<close> variant; all four are partial applications of
  \<^verbatim>\<open>abstractBetweennessCentrality\<close> and \<^verbatim>\<open>abstractEdgeBetweennessCentrality\<close>.

  Numbers. JavaScript numbers and the entries of a \<^verbatim>\<open>Float64Array\<close> are modelled by
  \<^typ>\<open>real\<close>: arithmetic is exact, and rounding, infinities and NaN are outside the
  model. Where the JavaScript computes with \<^verbatim>\<open>undefined\<close> (a number read outside an
  array, a key missing from an object) or divides by zero, its number is NaN or an
  infinity and the model's is an unspecified real. The indexer returns node indices below
  the node count and a path count of at least 1 for every node on its stack, so a run on
  its results stays inside the model.
\<close>

subsection \<open>Errors and arrays\<close>

datatype error =
  Error string    \<comment> \<open>\<^verbatim>\<open>throw new Error(message)\<close>, also raised by a collaborator\<close>
| TypeError       \<comment> \<open>reading a property of \<^verbatim>\<open>undefined\<close>\<close>

text \<open>
  \<^verbatim>\<open>xs[k]\<close> on a JavaScript array or typed array: the element, or \<^verbatim>\<open>undefined\<close>
  (\<open>None\<close>) outside the array. A write \<^verbatim>\<open>xs[k] = v\<close> outside a typed array is
  ignored, which is what \<open>xs[k := v]\<close> does in HOL.
\<close>

definition nth_opt :: "'a list \<Rightarrow> nat \<Rightarrow> 'a option" where
  "nth_opt xs k = (if k < length xs then Some (xs ! k) else None)"

subsection \<open>The traversal result of the shortest-path indexer\<close>

text \<open>
  \<^verbatim>\<open>S\<close> is a fixed-capacity stack: the code reads its fields \<^verbatim>\<open>S.items\<close> (the backing
  typed array, as long as the capacity) and \<^verbatim>\<open>S.size\<close> (the number of live entries,
  \<^verbatim>\<open>items[0 .. size-1]\<close>), and calls \<^verbatim>\<open>S.pop()\<close>. Entries of \<open>items\<close> at \<open>size\<close> and
  beyond are whatever earlier traversals left there.
\<close>

record stack =
  items :: "nat list"
  stack_size :: nat

text \<open>
  Modelled from the spec: the stack class is not under src/; the spec says that \<open>S\<close> is
  consumed as a stack, popped from the end first. \<^verbatim>\<open>pop\<close> returns \<^verbatim>\<open>undefined\<close> on
  an empty stack and otherwise \<^verbatim>\<open>items[--size]\<close>.
\<close>

definition pop :: "stack \<Rightarrow> nat option \<times> stack" where
  "pop S =
     (if stack_size S = 0 then (None, S)
      else (nth_opt (items S) (stack_size S - 1), S\<lparr>stack_size := stack_size S - 1\<rparr>))"

text \<open>
  \<^verbatim>\<open>result = brandes(i)\<close>; \<^verbatim>\<open>S = result[0]\<close>, \<^verbatim>\<open>P = result[1]\<close>,
  \<^verbatim>\<open>sigma = result[2]\<close>: the stack, the predecessor lists by node index and the
  shortest-path counts by node index.
\<close>

type_synonym result = "stack \<times> nat list list \<times> real list"

subsection \<open>The node accumulator's source iteration (lines 64-87)\<close>

text \<open>
  Line 72-74: \<^verbatim>\<open>j = S.size; while (j--) delta[S.items[S.size - j]] = 0;\<close>
  The test \<^verbatim>\<open>j--\<close> reads \<open>j\<close> and then decrements it, so the body runs with the
  decremented value: the argument \<open>Suc j\<close> is the value tested, \<open>j\<close> the value the body sees.
  \<^verbatim>\<open>delta[undefined] = 0\<close> changes no element of the typed array.
\<close>

fun reset_delta :: "stack \<Rightarrow> nat \<Rightarrow> real list \<Rightarrow> real list" where
  "reset_delta S 0 delta = delta"
| "reset_delta S (Suc j) delta =
     reset_delta S j
       (case nth_opt (items S) (stack_size S - j) of
          None \<Rightarrow> delta
        | Some k \<Rightarrow> delta[k := 0])"

text \<open>
  Lines 80-83: \<^verbatim>\<open>for (j = 0, m = P[w].length; j < m; j++) { v = P[w][j];
  delta[v] += sigma[v] * coefficient; }\<close>, the list argument being \<^verbatim>\<open>P[w][j..]\<close>.
\<close>

fun accumulate_predecessors ::
  "real list \<Rightarrow> real \<Rightarrow> nat list \<Rightarrow> real list \<Rightarrow> real list" where
  "accumulate_predecessors sigma coefficient [] delta = delta"
| "accumulate_predecessors sigma coefficient (v # vs) delta =
     accumulate_predecessors sigma coefficient vs
       (delta[v := delta ! v + sigma ! v * coefficient])"

text \<open>
  Lines 76-86: \<^verbatim>\<open>while (S.size !== 0) { w = S.pop(); ... }\<close>. \<^verbatim>\<open>P[w].length\<close> throws a
  TypeError when \<^verbatim>\<open>P[w]\<close> is \<^verbatim>\<open>undefined\<close>; nothing has been written in that
  iteration before it.
\<close>

function accumulate ::
  "nat \<Rightarrow> nat list list \<Rightarrow> real list \<Rightarrow> stack \<Rightarrow> real list \<Rightarrow> real list
     \<Rightarrow> error + (stack \<times> real list \<times> real list)" where
  "accumulate i P sigma S delta centralities =
     (if stack_size S = 0 then Inr (S, delta, centralities)
      else
        (case fst (pop S) of
           None \<Rightarrow> Inl TypeError
         | Some w \<Rightarrow>
             (case nth_opt P w of
                None \<Rightarrow> Inl TypeError
              | Some Pw \<Rightarrow>
                  (let coefficient = (1 + delta ! w) / sigma ! w;
                       delta' = accumulate_predecessors sigma coefficient Pw delta;
                       centralities' =
                         (if w \<noteq> i then centralities[w := centralities ! w + delta' ! w]
                          else centralities)
                   in accumulate i P sigma (snd (pop S)) delta' centralities'))))"
  by pat_completeness auto
termination
  by (relation "measure (\<lambda>(i, P, sigma, S, delta, centralities). stack_size S)")
     (auto simp: pop_def)

declare accumulate.simps [simp del]

text \<open>
  Lines 65-86, one source \<open>i\<close>: the traversal result is taken apart, \<open>delta\<close> is reset
  and the backward pass runs until the stack is empty.
\<close>

definition node_iteration ::
  "nat \<Rightarrow> result \<Rightarrow> real list \<times> real list \<Rightarrow> error + (real list \<times> real list)" where
  "node_iteration i result st =
     (case result of (S, P, sigma) \<Rightarrow>
      case st of (delta, centralities) \<Rightarrow>
        (case accumulate i P sigma S (reset_delta S (stack_size S) delta) centralities of
           Inl e \<Rightarrow> Inl e
         | Inr (S', delta', centralities') \<Rightarrow> Inr (delta', centralities')))"

text \<open>
  Line 64: \<^verbatim>\<open>for (i = 0; i < N; i++) { result = brandes(i); ... }\<close>. The indexer is a
  collaborator: \<open>brandes i\<close> is its answer for source \<open>i\<close>, or the error it throws.
\<close>

function node_sources ::
  "(nat \<Rightarrow> error + result) \<Rightarrow> nat \<Rightarrow> nat \<Rightarrow> real list \<times> real list
     \<Rightarrow> error + (real list \<times> real list)" where
  "node_sources brandes N i st =
     (if i < N then
        (case brandes i of
           Inl e \<Rightarrow> Inl e
         | Inr result \<Rightarrow>
             (case node_iteration i result st of
                Inl e \<Rightarrow> Inl e
              | Inr st' \<Rightarrow> node_sources brandes N (Suc i) st'))
      else Inr st)"
  by pat_completeness auto
termination
  by (relation "measure (\<lambda>(brandes, N, i, st). N - i)") auto

declare node_sources.simps [simp del]

subsection \<open>Graph handle, options and collaborators\<close>

text \<open>
  The graph handle, by the members the module uses: \<^verbatim>\<open>graph.order\<close>,
  \<^verbatim>\<open>graph.type\<close> (a string, compared with \<^verbatim>\<open>'undirected'\<close>), \<^verbatim>\<open>graph.forEachEdge\<close>
  (the edge keys in enumeration order), \<^verbatim>\<open>graph.edge(source, target)\<close> (an edge key or
  \<^verbatim>\<open>undefined\<close>; an argument is a node key or \<^verbatim>\<open>undefined\<close>) and the attribute
  stores that the assign variants write.
\<close>

record graph =
  order :: nat
  graph_type :: string
  edges :: "string list"
  edge :: "string option \<Rightarrow> string option \<Rightarrow> string option"
  node_attributes :: "string \<Rightarrow> (string \<rightharpoonup> real)"
  edge_attributes :: "string \<Rightarrow> (string \<rightharpoonup> real)"

text \<open>The first argument of the exported functions is any JavaScript value.\<close>

datatype js_value = Graph graph | Other string

text \<open>
  Modelled from the spec: \<^verbatim>\<open>isGraph\<close> (graphology-utils/is-graph) is not under src/; it
  recognises the values that satisfy the graph handle's capability contract.
\<close>

fun isGraph :: "js_value \<Rightarrow> bool" where
  "isGraph (Graph g) = True"
| "isGraph (Other x) = False"

text \<open>The graph behind a value that \<open>isGraph\<close> accepted; it is applied to no other value.\<close>

fun the_graph :: "js_value \<Rightarrow> graph" where
  "the_graph (Graph g) = g"
| "the_graph (Other x) = undefined"

text \<open>
  The value of the \<^verbatim>\<open>getEdgeWeight\<close> option: \<^verbatim>\<open>null\<close>, an attribute name or a getter
  function. An option object has a field for each recognised key, \<open>None\<close> when the key
  is missing (\<^verbatim>\<open>undefined\<close>).
\<close>

datatype accessor = Null | Name string | Getter "string \<Rightarrow> real"

record options =
  nodeCentralityAttribute :: "string option"
  edgeCentralityAttribute :: "string option"
  getEdgeWeight :: "accessor option"
  normalized :: "bool option"

text \<open>Lines 17-27.\<close>

definition DEFAULTS_NODE :: options where
  "DEFAULTS_NODE =
     \<lparr>nodeCentralityAttribute = Some ''nodeBetweennessCentrality'',
      edgeCentralityAttribute = None,
      getEdgeWeight = Some (Name ''weight''),
      normalized = Some True\<rparr>"

definition DEFAULTS_EDGE :: options where
  "DEFAULTS_EDGE =
     \<lparr>nodeCentralityAttribute = None,
      edgeCentralityAttribute = Some ''edgeBetweennessCentrality'',
      getEdgeWeight = Some (Name ''weight''),
      normalized = Some True\<rparr>"

text \<open>
  Modelled from the spec: \<^verbatim>\<open>resolveDefaults\<close> (graphology-utils/defaults) is not under
  src/; the spec's options-with-defaults pattern: the result has the keys of the
  defaults, each with the caller's value when the caller gave one and the default
  otherwise. A missing options argument counts as an empty object.
\<close>

definition resolve_key :: "'a option \<Rightarrow> 'a option \<Rightarrow> 'a option" where
  "resolve_key existing def =
     (case def of
        None \<Rightarrow> None
      | Some d \<Rightarrow> (case existing of None \<Rightarrow> Some d | Some v \<Rightarrow> Some v))"

definition resolveDefaults :: "options option \<Rightarrow> options \<Rightarrow> options" where
  "resolveDefaults target defaults =
     (let target =
        (case target of
           None \<Rightarrow>
             \<lparr>nodeCentralityAttribute = None, edgeCentralityAttribute = None,
              getEdgeWeight = None, normalized = None\<rparr>
         | Some t \<Rightarrow> t)
      in \<lparr>nodeCentralityAttribute =
            resolve_key (nodeCentralityAttribute target) (nodeCentralityAttribute defaults),
          edgeCentralityAttribute =
            resolve_key (edgeCentralityAttribute target) (edgeCentralityAttribute defaults),
          getEdgeWeight = resolve_key (getEdgeWeight target) (getEdgeWeight defaults),
          normalized = resolve_key (normalized target) (normalized defaults)\<rparr>)"

text \<open>
  JavaScript truthiness, as the conditions \<^verbatim>\<open>options.getEdgeWeight ? ... : ...\<close> and
  \<^verbatim>\<open>if (normalized)\<close> read it: \<^verbatim>\<open>undefined\<close>, \<^verbatim>\<open>null\<close>, the empty string and
  \<^verbatim>\<open>false\<close> are falsy; a non-empty string, a function and \<^verbatim>\<open>true\<close> are truthy.
\<close>

fun truthy :: "accessor option \<Rightarrow> bool" where
  "truthy None = False"
| "truthy (Some Null) = False"
| "truthy (Some (Name s)) = (s \<noteq> [])"
| "truthy (Some (Getter f)) = True"

fun truthy_flag :: "bool option \<Rightarrow> bool" where
  "truthy_flag None = False"
| "truthy_flag (Some b) = b"

text \<open>
  A property key: \<^verbatim>\<open>o[undefined]\<close> is the property named \<^verbatim>\<open>'undefined'\<close>.
\<close>

fun key :: "string option \<Rightarrow> string" where
  "key None = ''undefined''"
| "key (Some k) = k"

text \<open>
  The indexer that \<^verbatim>\<open>createUnweightedIndexedBrandes\<close> and
  \<^verbatim>\<open>createDijkstraIndexedBrandes\<close> return: the function \<^verbatim>\<open>brandes(i)\<close> and
  \<^verbatim>\<open>brandes.index.nodes\<close>, the node keys by node index. Both constructors are
  collaborators (graphology-shortest-path/indexed-brandes, not under src/) and are
  parameters of the model; each returns an indexer or throws.
\<close>

record indexer =
  brandes :: "nat \<Rightarrow> error + result"
  nodes :: "string list"

record lib =
  createUnweightedIndexedBrandes :: "graph \<Rightarrow> error + indexer"
  createDijkstraIndexedBrandes :: "graph \<Rightarrow> accessor option \<Rightarrow> error + indexer"

text \<open>
  Lines 52-54 and 128-130:
  \<^verbatim>\<open>options.getEdgeWeight ? createDijkstraIndexedBrandes(graph, options.getEdgeWeight)
  : createUnweightedIndexedBrandes(graph)\<close>.
\<close>

definition create_brandes :: "lib \<Rightarrow> graph \<Rightarrow> options \<Rightarrow> error + indexer" where
  "create_brandes l g options =
     (if truthy (getEdgeWeight options)
      then createDijkstraIndexedBrandes l g (getEdgeWeight options)
      else createUnweightedIndexedBrandes l g)"

text \<open>
  Modelled from the spec: \<^verbatim>\<open>brandes.index.collect\<close> and \<^verbatim>\<open>brandes.index.assign\<close> are
  not under src/. Collect returns the mapping from node key to the value at the node's
  index; assign writes that value into the node's attribute store under the given name.
\<close>

definition index_collect :: "indexer \<Rightarrow> real list \<Rightarrow> (string \<rightharpoonup> real)" where
  "index_collect ix results =
     fold (\<lambda>k m. m(nodes ix ! k \<mapsto> results ! k)) [0..<length results] Map.empty"

definition index_assign :: "indexer \<Rightarrow> graph \<Rightarrow> string \<Rightarrow> real list \<Rightarrow> graph" where
  "index_assign ix g name results =
     fold (\<lambda>k g. g\<lparr>node_attributes :=
                      (node_attributes g)
                        (nodes ix ! k := (node_attributes g (nodes ix ! k))(name \<mapsto> results ! k))\<rparr>)
       [0..<length results] g"

text \<open>What a call returns: the collected mapping, or \<^verbatim>\<open>undefined\<close>.\<close>

datatype returned = Mapping "string \<rightharpoonup> real" | Undefined

subsection \<open>abstractBetweennessCentrality (lines 40-102)\<close>

text \<open>Lines 90-93, the scale; \<open>None\<close> is \<^verbatim>\<open>null\<close>.\<close>

definition node_scale :: "bool \<Rightarrow> nat \<Rightarrow> graph \<Rightarrow> real option" where
  "node_scale is_normalized N g =
     (if is_normalized then (if N \<le> 2 then None else Some (1 / ((real N - 1) * (real N - 2))))
      else (if graph_type g = ''undirected'' then Some 0.5 else None))"

text \<open>Line 96: \<^verbatim>\<open>for (i = 0; i < N; i++) centralities[i] *= scale;\<close>\<close>

function scale_centralities :: "real \<Rightarrow> nat \<Rightarrow> nat \<Rightarrow> real list \<Rightarrow> real list" where
  "scale_centralities scale N i centralities =
     (if i < N
      then scale_centralities scale N (Suc i) (centralities[i := centralities ! i * scale])
      else centralities)"
  by pat_completeness auto
termination
  by (relation "measure (\<lambda>(scale, N, i, centralities). N - i)") auto

declare scale_centralities.simps [simp del]

text \<open>Lines 89-97.\<close>

definition rescale :: "bool \<Rightarrow> nat \<Rightarrow> graph \<Rightarrow> real list \<Rightarrow> real list" where
  "rescale is_normalized N g centralities =
     (case node_scale is_normalized N g of
        None \<Rightarrow> centralities
      | Some scale \<Rightarrow> scale_centralities scale N 0 centralities)"

text \<open>
  The whole function. The result is the state of the first argument after the call and
  what the call returns or throws. Only the assign variant changes the graph.
\<close>

definition abstractBetweennessCentrality ::
  "lib \<Rightarrow> bool \<Rightarrow> js_value \<Rightarrow> options option \<Rightarrow> js_value \<times> (error + returned)" where
  "abstractBetweennessCentrality l assign graph options =
     (if \<not> isGraph graph then
        (graph, Inl (Error ''graphology-centrality/beetweenness-centrality: the given graph is not a valid graphology instance.''))
      else
        (let g = the_graph graph;
             options = resolveDefaults options DEFAULTS_NODE;
             outputName = nodeCentralityAttribute options;
             is_normalized = truthy_flag (normalized options)
         in case create_brandes l g options of
              Inl e \<Rightarrow> (graph, Inl e)
            | Inr ix \<Rightarrow>
                (let N = order g;
                     delta = replicate N 0;
                     centralities = replicate N 0
                 in case node_sources (brandes ix) N 0 (delta, centralities) of
                      Inl e \<Rightarrow> (graph, Inl e)
                    | Inr (delta, centralities) \<Rightarrow>
                        (let centralities = rescale is_normalized N g centralities
                         in if assign
                            then (Graph (index_assign ix g (key outputName) centralities),
                                  Inr Undefined)
                            else (graph, Inr (Mapping (index_collect ix centralities)))))))"

subsection \<open>abstractEdgeBetweennessCentrality (lines 115-198)\<close>

text \<open>
  \<^verbatim>\<open>edgeCentralities\<close> is the object literal \<^verbatim>\<open>{}\<close> of line 136, keyed by edge key;
  the model keeps its own properties. The object inherits from \<^verbatim>\<open>Object.prototype\<close>,
  where \<^verbatim>\<open>__proto__\<close> is an accessor: an assignment \<^verbatim>\<open>edgeCentralities['__proto__'] = x\<close>
  with a number (or a string) \<open>x\<close> runs the inherited setter, which ignores a value that
  is neither an object nor \<^verbatim>\<open>null\<close>, and no own property is stored. An assignment
  under any other key stores an own property.
\<close>

definition set_property ::
  "(string \<rightharpoonup> real) \<Rightarrow> string \<Rightarrow> real \<Rightarrow> (string \<rightharpoonup> real)" where
  "set_property m k x = (if k = ''__proto__'' then m else m(k \<mapsto> x))"

text \<open>
  \<^verbatim>\<open>edgeCentralities[k] += c\<close> reads the property and assigns the sum. What is read
  under a key that is no own number property is no number, and unspecified in the model.
\<close>

definition add_to :: "(string \<rightharpoonup> real) \<Rightarrow> string \<Rightarrow> real \<Rightarrow> (string \<rightharpoonup> real)" where
  "add_to m k c = set_property m k (the (m k) + c)"

text \<open>
  Lines 162-173, the body of the loop over the predecessors of \<open>w\<close>, for the
  predecessor \<open>v\<close>; \<open>ns\<close> is \<^verbatim>\<open>brandes.index.nodes\<close>.
\<close>

definition edge_step ::
  "graph \<Rightarrow> string list \<Rightarrow> real list \<Rightarrow> real \<Rightarrow> nat \<Rightarrow> nat
     \<Rightarrow> real list \<times> (string \<rightharpoonup> real) \<Rightarrow> real list \<times> (string \<rightharpoonup> real)" where
  "edge_step g ns sigma coefficient w v st =
     (case st of (delta, edgeCentralities) \<Rightarrow>
        (let c = sigma ! v * coefficient;
             vw = edge g (nth_opt ns v) (nth_opt ns w);
             wv = edge g (nth_opt ns w) (nth_opt ns v);
             edgeCentralities' =
               (if vw = None then add_to edgeCentralities (key wv) c
                else add_to edgeCentralities (key vw) c)
         in (delta[v := delta ! v + c], edgeCentralities')))"

text \<open>Lines 161-174: \<^verbatim>\<open>for (j = 0, m = P[w].length; j < m; j++) { v = P[w][j]; ... }\<close>\<close>

fun accumulate_edge_predecessors ::
  "graph \<Rightarrow> string list \<Rightarrow> real list \<Rightarrow> real \<Rightarrow> nat \<Rightarrow> nat list
     \<Rightarrow> real list \<times> (string \<rightharpoonup> real) \<Rightarrow> real list \<times> (string \<rightharpoonup> real)" where
  "accumulate_edge_predecessors g ns sigma coefficient w [] st = st"
| "accumulate_edge_predecessors g ns sigma coefficient w (v # vs) st =
     accumulate_edge_predecessors g ns sigma coefficient w vs
       (edge_step g ns sigma coefficient w v st)"

text \<open>Lines 158-175: \<^verbatim>\<open>while (S.size !== 0) { w = S.pop(); ... }\<close>\<close>

function accumulate_edges ::
  "graph \<Rightarrow> string list \<Rightarrow> nat list list \<Rightarrow> real list \<Rightarrow> stack
     \<Rightarrow> real list \<times> (string \<rightharpoonup> real)
     \<Rightarrow> error + (stack \<times> real list \<times> (string \<rightharpoonup> real))" where
  "accumulate_edges g ns P sigma S st =
     (if stack_size S = 0 then Inr (S, st)
      else
        (case fst (pop S) of
           None \<Rightarrow> Inl TypeError
         | Some w \<Rightarrow>
             (case nth_opt P w of
                None \<Rightarrow> Inl TypeError
              | Some Pw \<Rightarrow>
                  (let coefficient = (1 + fst st ! w) / sigma ! w
                   in accumulate_edges g ns P sigma (snd (pop S))
                        (accumulate_edge_predecessors g ns sigma coefficient w Pw st)))))"
  by pat_completeness auto
termination
  by (relation "measure (\<lambda>(g, ns, P, sigma, S, st). stack_size S)") (auto simp: pop_def)

declare accumulate_edges.simps [simp del]

text \<open>Lines 146-175, one source: reset \<open>delta\<close>, then the backward pass.\<close>

definition edge_iteration ::
  "graph \<Rightarrow> string list \<Rightarrow> result \<Rightarrow> real list \<times> (string \<rightharpoonup> real)
     \<Rightarrow> error + (real list \<times> (string \<rightharpoonup> real))" where
  "edge_iteration g ns result st =
     (case result of (S, P, sigma) \<Rightarrow>
      case st of (delta, edgeCentralities) \<Rightarrow>
        (case accumulate_edges g ns P sigma S
                (reset_delta S (stack_size S) delta, edgeCentralities) of
           Inl e \<Rightarrow> Inl e
         | Inr (S', st') \<Rightarrow> Inr st'))"

text \<open>Line 145: \<^verbatim>\<open>for (i = 0; i < order; i++) { result = brandes(i); ... }\<close>\<close>

function edge_sources ::
  "graph \<Rightarrow> string list \<Rightarrow> (nat \<Rightarrow> error + result) \<Rightarrow> nat \<Rightarrow> nat
     \<Rightarrow> real list \<times> (string \<rightharpoonup> real) \<Rightarrow> error + (real list \<times> (string \<rightharpoonup> real))" where
  "edge_sources g ns f N i st =
     (if i < N then
        (case f i of
           Inl e \<Rightarrow> Inl e
         | Inr result \<Rightarrow>
             (case edge_iteration g ns result st of
                Inl e \<Rightarrow> Inl e
              | Inr st' \<Rightarrow> edge_sources g ns f N (Suc i) st'))
      else Inr st)"
  by pat_completeness auto
termination
  by (relation "measure (\<lambda>(g, ns, f, N, i, st). N - i)") auto

declare edge_sources.simps [simp del]

text \<open>
  Lines 136-140: \<^verbatim>\<open>edgeCentralities = {}; graph.forEachEdge(function (edge) {
  edgeCentralities[edge] = 0.0; });\<close>
\<close>

definition initial_edgeCentralities :: "graph \<Rightarrow> (string \<rightharpoonup> real)" where
  "initial_edgeCentralities g = fold (\<lambda>e m. set_property m e 0) (edges g) Map.empty"

text \<open>Lines 179-182, the scale; \<open>None\<close> is \<^verbatim>\<open>null\<close>.\<close>

definition edge_scale :: "bool \<Rightarrow> nat \<Rightarrow> graph \<Rightarrow> real option" where
  "edge_scale is_normalized N g =
     (if is_normalized then (if N \<le> 1 then None else Some (1 / (real N * (real N - 1))))
      else (if graph_type g = ''undirected'' then Some 0.5 else None))"

text \<open>
  Lines 178-188: \<^verbatim>\<open>graph.forEachEdge(function (edge) { edgeCentralities[edge] *= scale; })\<close>
  when the scale is not \<^verbatim>\<open>null\<close>.
\<close>

definition rescale_edges ::
  "bool \<Rightarrow> nat \<Rightarrow> graph \<Rightarrow> (string \<rightharpoonup> real) \<Rightarrow> (string \<rightharpoonup> real)" where
  "rescale_edges is_normalized N g edgeCentralities =
     (case edge_scale is_normalized N g of
        None \<Rightarrow> edgeCentralities
      | Some scale \<Rightarrow>
          fold (\<lambda>e m. set_property m e (the (m e) * scale)) (edges g) edgeCentralities)"

text \<open>
  Lines 190-195: \<^verbatim>\<open>graph.updateEachEdgeAttributes(function (edge, attr) {
  attr[outputName] = edgeCentralities[edge]; return attr; })\<close>. The attribute store is
  the graph's. For an edge with no own number property in \<^verbatim>\<open>edgeCentralities\<close> the
  value written is no number, and unspecified in the model.
\<close>

definition updateEachEdgeAttributes :: "graph \<Rightarrow> string \<Rightarrow> (string \<rightharpoonup> real) \<Rightarrow> graph" where
  "updateEachEdgeAttributes g name edgeCentralities =
     fold (\<lambda>e g. g\<lparr>edge_attributes :=
                      (edge_attributes g)
                        (e := (edge_attributes g e)(name \<mapsto> the (edgeCentralities e)))\<rparr>)
       (edges g) g"

text \<open>The whole function, with the same result convention as the node function.\<close>

definition abstractEdgeBetweennessCentrality ::
  "lib \<Rightarrow> bool \<Rightarrow> js_value \<Rightarrow> options option \<Rightarrow> js_value \<times> (error + returned)" where
  "abstractEdgeBetweennessCentrality l assign graph options =
     (if \<not> isGraph graph then
        (graph, Inl (Error ''graphology-centrality/beetweenness-centrality: the given graph is not a valid graphology instance.''))
      else
        (let g = the_graph graph;
             options = resolveDefaults options DEFAULTS_EDGE;
             outputName = edgeCentralityAttribute options;
             is_normalized = truthy_flag (normalized options)
         in case create_brandes l g options of
              Inl e \<Rightarrow> (graph, Inl e)
            | Inr ix \<Rightarrow>
                (let N = order g;
                     delta = replicate N 0;
                     edgeCentralities = initial_edgeCentralities g
                 in case edge_sources g (nodes ix) (brandes ix) N 0 (delta, edgeCentralities) of
                      Inl e \<Rightarrow> (graph, Inl e)
                    | Inr (delta, edgeCentralities) \<Rightarrow>
                        (let edgeCentralities = rescale_edges is_normalized N g edgeCentralities
                         in if assign
                            then (Graph (updateEachEdgeAttributes g (key outputName) edgeCentralities),
                                  Inr Undefined)
                            else (graph, Inr (Mapping edgeCentralities))))))"

text \<open>Lines 203-213: the exported functions.\<close>

definition betweennessCentrality ::
  "lib \<Rightarrow> js_value \<Rightarrow> options option \<Rightarrow> js_value \<times> (error + returned)" where
  "betweennessCentrality l = abstractBetweennessCentrality l False"

definition betweennessCentrality_assign ::
  "lib \<Rightarrow> js_value \<Rightarrow> options option \<Rightarrow> js_value \<times> (error + returned)" where
  "betweennessCentrality_assign l = abstractBetweennessCentrality l True"

definition edgeBetweennessCentrality ::
  "lib \<Rightarrow> js_value \<Rightarrow> options option \<Rightarrow> js_value \<times> (error + returned)" where
  "edgeBetweennessCentrality l = abstractEdgeBetweennessCentrality l False"

definition edgeBetweennessCentrality_assign ::
  "lib \<Rightarrow> js_value \<Rightarrow> options option \<Rightarrow> js_value \<times> (error + returned)" where
  "edgeBetweennessCentrality_assign l = abstractEdgeBetweennessCentrality l True"

section \<open>Definitions used to state the properties\<close>

subsection \<open>The backward pass in the words of the specification\<close>

text \<open>The order in which \<^verbatim>\<open>S.pop()\<close> returns the live entries: last pushed first.\<close>

definition pop_order :: "stack \<Rightarrow> nat list" where
  "pop_order S = rev (take (stack_size S) (items S))"

text \<open>
  A stack whose live entries lie inside its backing array and are indices of \<open>P\<close>:
  what the indexer returns for a graph of \<open>length P\<close> nodes.
\<close>

definition wf_stack :: "stack \<Rightarrow> nat list list \<Rightarrow> bool" where
  "wf_stack S P =
     (stack_size S \<le> length (items S) \<and> list_all (\<lambda>w. w < length P) (pop_order S))"

text \<open>
  Specification 4.1, step 2c, for one popped node \<open>w\<close>: compute
  \<open>coefficient = (1 + delta[w]) / sigma[w]\<close>; for every predecessor \<open>v\<close> in \<open>P[w]\<close>, add
  \<open>sigma[v] * coefficient\<close> to \<open>delta[v]\<close>; if \<open>w \<noteq> i\<close>, add \<open>delta[w]\<close> to
  \<open>centralities[w]\<close>.
\<close>

definition spec_node_step ::
  "nat \<Rightarrow> nat list list \<Rightarrow> real list \<Rightarrow> real list \<times> real list \<Rightarrow> nat
     \<Rightarrow> real list \<times> real list" where
  "spec_node_step i P sigma st w =
     (case st of (delta, centralities) \<Rightarrow>
        (let coefficient = (1 + delta ! w) / sigma ! w;
             delta' = foldl (\<lambda>d v. d[v := d ! v + sigma ! v * coefficient]) delta (P ! w)
         in (delta', if w = i then centralities
                     else centralities[w := centralities ! w + delta' ! w])))"

text \<open>
  Specification 4.2: look up \<open>edge(v, w)\<close>; if absent, the edge stored under the reverse
  orientation \<open>edge(w, v)\<close>.
\<close>

definition resolve_edge :: "graph \<Rightarrow> string list \<Rightarrow> nat \<Rightarrow> nat \<Rightarrow> string option" where
  "resolve_edge g ns v w =
     (case edge g (nth_opt ns v) (nth_opt ns w) of
        Some e \<Rightarrow> Some e
      | None \<Rightarrow> edge g (nth_opt ns w) (nth_opt ns v))"

text \<open>The contribution \<open>c\<close> added to the total of the edge \<open>k\<close>.\<close>

definition credit :: "(string \<rightharpoonup> real) \<Rightarrow> string \<Rightarrow> real \<Rightarrow> (string \<rightharpoonup> real)" where
  "credit totals k c = totals(k \<mapsto> the (totals k) + c)"

text \<open>
  Specification 4.2, for one popped node \<open>w\<close>: for every predecessor \<open>v\<close>, the
  contribution \<open>c = sigma[v] * coefficient\<close> is added to \<open>delta[v]\<close> and to the total of
  the resolved edge.
\<close>

definition spec_edge_step ::
  "graph \<Rightarrow> string list \<Rightarrow> nat list list \<Rightarrow> real list
     \<Rightarrow> real list \<times> (string \<rightharpoonup> real) \<Rightarrow> nat \<Rightarrow> real list \<times> (string \<rightharpoonup> real)" where
  "spec_edge_step g ns P sigma st w =
     (let coefficient = (1 + fst st ! w) / sigma ! w
      in foldl (\<lambda>(delta, totals) v.
                  (let c = sigma ! v * coefficient
                   in (delta[v := delta ! v + c], credit totals (key (resolve_edge g ns v w)) c)))
           st (P ! w))"

text \<open>The stack and \<open>delta\<close> that a backward pass leaves, whichever accumulator ran it.\<close>

definition delta_of :: "error + (stack \<times> real list \<times> 'a) \<Rightarrow> error + (stack \<times> real list)" where
  "delta_of r = (case r of Inl e \<Rightarrow> Inl e | Inr (S, delta, x) \<Rightarrow> Inr (S, delta))"

text \<open>What the caller supplied for \<^verbatim>\<open>getEdgeWeight\<close>; \<open>None\<close> when nothing.\<close>

definition supplied_getEdgeWeight :: "options option \<Rightarrow> accessor option" where
  "supplied_getEdgeWeight options =
     (case options of None \<Rightarrow> None | Some t \<Rightarrow> getEdgeWeight t)"

text \<open>
  Specification 4.1, step 3, with \<open>N\<close> the node count: under normalization every
  entry is multiplied by \<open>1 / ((N-1)(N-2))\<close> when \<open>N > 2\<close> and left as it is otherwise;
  without normalization every entry is multiplied by \<open>0.5\<close> when the graph is undirected
  and left as it is otherwise.
\<close>

definition node_rescaled :: "bool \<Rightarrow> graph \<Rightarrow> real list \<Rightarrow> real list" where
  "node_rescaled is_normalized g raw =
     (if is_normalized then
        (if 2 < order g
         then map (\<lambda>c. c * (1 / ((real (order g) - 1) * (real (order g) - 2)))) raw
         else raw)
      else (if graph_type g = ''undirected'' then map (\<lambda>c. c * 0.5) raw else raw))"

text \<open>Every total of an edge in \<open>es\<close> multiplied by \<open>s\<close>, the other entries untouched.\<close>

definition scale_edges ::
  "real \<Rightarrow> string list \<Rightarrow> (string \<rightharpoonup> real) \<Rightarrow> (string \<rightharpoonup> real)" where
  "scale_edges s es totals =
     (\<lambda>k. if k \<in> set es then map_option (\<lambda>x. x * s) (totals k) else totals k)"

text \<open>
  Specification 4.2, rescaling: the scale \<open>1 / (N(N-1))\<close> when \<open>N > 1\<close> under
  normalization, \<open>0.5\<close> for an undirected graph without it, none otherwise; applied to
  every edge's total.
\<close>

definition edge_rescaled ::
  "bool \<Rightarrow> graph \<Rightarrow> (string \<rightharpoonup> real) \<Rightarrow> (string \<rightharpoonup> real)" where
  "edge_rescaled is_normalized g totals =
     (if is_normalized then
        (if 1 < order g
         then scale_edges (1 / (real (order g) * (real (order g) - 1))) (edges g) totals
         else totals)
      else (if graph_type g = ''undirected'' then scale_edges 0.5 (edges g) totals else totals))"

text \<open>
  The documented normalization scale factors (absent scaling is the factor 1), and the
  factor 2 that undoes the halving of an undirected graph's raw output.
\<close>

definition node_normalization :: "nat \<Rightarrow> real" where
  "node_normalization N = (if 2 < N then 1 / ((real N - 1) * (real N - 2)) else 1)"

definition edge_normalization :: "nat \<Rightarrow> real" where
  "edge_normalization N = (if 1 < N then 1 / (real N * (real N - 1)) else 1)"

definition orientation_factor :: "graph \<Rightarrow> real" where
  "orientation_factor g = (if graph_type g = ''undirected'' then 2 else 1)"

text \<open>
  A returned mapping multiplied entrywise by \<open>s\<close>; a returned mapping cut down to the
  keys in \<open>es\<close>; the value a call returned for the key \<open>k\<close>.
\<close>

fun scale_returned :: "real \<Rightarrow> returned \<Rightarrow> returned" where
  "scale_returned s (Mapping m) = Mapping (\<lambda>k. map_option (\<lambda>x. x * s) (m k))"
| "scale_returned s Undefined = Undefined"

fun restrict_returned :: "string list \<Rightarrow> returned \<Rightarrow> returned" where
  "restrict_returned es (Mapping m) = Mapping (\<lambda>k. if k \<in> set es then m k else None)"
| "restrict_returned es Undefined = Undefined"

fun value_at :: "string \<Rightarrow> error + returned \<Rightarrow> real option" where
  "value_at k (Inr (Mapping m)) = m k"
| "value_at k r = None"

text \<open>
  The keys that the predecessor steps resolve to: in the backward pass over one
  traversal result, one key for every predecessor \<open>v\<close> of every popped \<open>w\<close>; and over
  the sources \<open>i, ..., N-1\<close> of a whole run.
\<close>

definition attributed_by_pass ::
  "graph \<Rightarrow> string list \<Rightarrow> nat list list \<Rightarrow> stack \<Rightarrow> string list" where
  "attributed_by_pass g ns P S =
     concat (map (\<lambda>w. map (\<lambda>v. key (resolve_edge g ns v w)) (P ! w)) (pop_order S))"

definition attributed_from :: "graph \<Rightarrow> indexer \<Rightarrow> nat \<Rightarrow> nat \<Rightarrow> string list" where
  "attributed_from g ix i N =
     concat (map (\<lambda>i. case brandes ix i of
                        Inl e \<Rightarrow> []
                      | Inr (S, P, sigma) \<Rightarrow> attributed_by_pass g (nodes ix) P S)
               [i..<N])"

subsection \<open>Example inputs\<close>

text \<open>An indexer library whose constructors throw, each its own error.\<close>

definition probe_lib :: lib where
  "probe_lib =
     \<lparr>createUnweightedIndexedBrandes = (\<lambda>g. Inl (Error ''createUnweightedIndexedBrandes'')),
      createDijkstraIndexedBrandes = (\<lambda>g a. Inl (Error ''createDijkstraIndexedBrandes''))\<rparr>"

definition empty_graph :: graph where
  "empty_graph =
     \<lparr>order = 0, graph_type = ''directed'', edges = [], edge = (\<lambda>a b. None),
      node_attributes = (\<lambda>n. Map.empty), edge_attributes = (\<lambda>e. Map.empty)\<rparr>"

definition no_weight_options :: options where
  "no_weight_options =
     \<lparr>nodeCentralityAttribute = None, edgeCentralityAttribute = None,
      getEdgeWeight = Some Null, normalized = None\<rparr>"

text \<open>
  The undirected path \<open>A - B - C - D\<close> of the specification's concrete scenario, with the
  node indices 0 to 3 and the edges \<open>AB\<close>, \<open>BC\<close>, \<open>CD\<close>; \<open>path_result i\<close> is the
  breadth-first traversal from source \<open>i\<close>: the nodes in the order they were reached,
  the predecessor lists and the path counts.
\<close>

fun path_edge :: "string option \<Rightarrow> string option \<Rightarrow> string option" where
  "path_edge (Some a) (Some b) =
     (if (a, b) = (''A'', ''B'') \<or> (a, b) = (''B'', ''A'') then Some ''AB''
      else if (a, b) = (''B'', ''C'') \<or> (a, b) = (''C'', ''B'') then Some ''BC''
      else if (a, b) = (''C'', ''D'') \<or> (a, b) = (''D'', ''C'') then Some ''CD''
      else None)"
| "path_edge a b = None"

definition path_graph :: graph where
  "path_graph =
     \<lparr>order = 4, graph_type = ''undirected'', edges = [''AB'', ''BC'', ''CD''],
      edge = path_edge, node_attributes = (\<lambda>n. Map.empty),
      edge_attributes = (\<lambda>e. Map.empty)\<rparr>"

definition path_result :: "nat \<Rightarrow> result" where
  "path_result i =
     (if i = 0 then
        (\<lparr>items = [0, 1, 2, 3], stack_size = 4\<rparr>, [[], [0], [1], [2]], [1, 1, 1, 1])
      else if i = 1 then
        (\<lparr>items = [1, 0, 2, 3], stack_size = 4\<rparr>, [[1], [], [1], [2]], [1, 1, 1, 1])
      else if i = 2 then
        (\<lparr>items = [2, 1, 3, 0], stack_size = 4\<rparr>, [[1], [2], [], [2]], [1, 1, 1, 1])
      else
        (\<lparr>items = [3, 2, 1, 0], stack_size = 4\<rparr>, [[1], [2], [3], []], [1, 1, 1, 1]))"

definition path_indexer :: indexer where
  "path_indexer =
     \<lparr>brandes = (\<lambda>i. Inr (path_result i)), nodes = [''A'', ''B'', ''C'', ''D'']\<rparr>"

definition path_lib :: lib where
  "path_lib =
     \<lparr>createUnweightedIndexedBrandes = (\<lambda>g. Inr path_indexer),
      createDijkstraIndexedBrandes = (\<lambda>g a. Inr path_indexer)\<rparr>"

definition empty_options :: options where
  "empty_options =
     \<lparr>nodeCentralityAttribute = None, edgeCentralityAttribute = None,
      getEdgeWeight = None, normalized = None\<rparr>"

text \<open>
  A weighted directed graph on \<open>A\<close>, \<open>B\<close>, \<open>C\<close> (indices 0, 1, 2) with the edges
  \<open>A -> B\<close> and \<open>B -> C\<close> of weight 1 and \<open>A -> C\<close> of weight 5, so that the shortest
  path from \<open>A\<close> to \<open>C\<close> goes through \<open>B\<close> and the edge \<open>AC\<close> lies on no shortest
  path. \<open>detour_result i\<close> is the weighted traversal from source \<open>i\<close>; the stack's
  backing array keeps the entries of the earlier traversals beyond its size, and the
  path count of an unreached node is 0.
\<close>

fun detour_edge :: "string option \<Rightarrow> string option \<Rightarrow> string option" where
  "detour_edge (Some a) (Some b) =
     (if (a, b) = (''A'', ''B'') then Some ''AB''
      else if (a, b) = (''B'', ''C'') then Some ''BC''
      else if (a, b) = (''A'', ''C'') then Some ''AC''
      else None)"
| "detour_edge a b = None"

definition detour_graph :: graph where
  "detour_graph =
     \<lparr>order = 3, graph_type = ''directed'', edges = [''AB'', ''BC'', ''AC''],
      edge = detour_edge, node_attributes = (\<lambda>n. Map.empty),
      edge_attributes = (\<lambda>e. Map.empty)\<rparr>"

definition detour_result :: "nat \<Rightarrow> result" where
  "detour_result i =
     (if i = 0 then (\<lparr>items = [0, 1, 2], stack_size = 3\<rparr>, [[], [0], [1]], [1, 1, 1])
      else if i = 1 then (\<lparr>items = [1, 2, 2], stack_size = 2\<rparr>, [[], [], [1]], [0, 1, 1])
      else (\<lparr>items = [2, 2, 2], stack_size = 1\<rparr>, [[], [], []], [0, 0, 1]))"

definition detour_indexer :: indexer where
  "detour_indexer =
     \<lparr>brandes = (\<lambda>i. Inr (detour_result i)), nodes = [''A'', ''B'', ''C'']\<rparr>"

definition detour_lib :: lib where
  "detour_lib =
     \<lparr>createUnweightedIndexedBrandes = (\<lambda>g. Inl (Error ''createUnweightedIndexedBrandes'')),
      createDijkstraIndexedBrandes = (\<lambda>g a. Inr detour_indexer)\<rparr>"

text \<open>
  The directed path \<open>A -> B -> C\<close> whose first edge has the key \<^verbatim>\<open>__proto__\<close> and whose
  second edge has the key \<open>BC\<close>. Its traversals are those of \<open>detour_result\<close>.
\<close>

fun proto_edge :: "string option \<Rightarrow> string option \<Rightarrow> string option" where
  "proto_edge (Some a) (Some b) =
     (if (a, b) = (''A'', ''B'') then Some ''__proto__''
      else if (a, b) = (''B'', ''C'') then Some ''BC''
      else None)"
| "proto_edge a b = None"

definition proto_graph :: graph where
  "proto_graph =
     \<lparr>order = 3, graph_type = ''directed'', edges = [''__proto__'', ''BC''],
      edge = proto_edge, node_attributes = (\<lambda>n. Map.empty),
      edge_attributes = (\<lambda>e. Map.empty)\<rparr>"

text \<open>
  A directed graph on \<open>A\<close>, \<open>B\<close> with the edge \<open>A -> B\<close> under the key \<^verbatim>\<open>__proto__\<close>
  and the edge \<open>B -> A\<close> under the key \<open>ba\<close>.
\<close>

fun proto_two_way_edge :: "string option \<Rightarrow> string option \<Rightarrow> string option" where
  "proto_two_way_edge (Some a) (Some b) =
     (if (a, b) = (''A'', ''B'') then Some ''__proto__''
      else if (a, b) = (''B'', ''A'') then Some ''ba''
      else None)"
| "proto_two_way_edge a b = None"

definition proto_two_way_graph :: graph where
  "proto_two_way_graph =
     \<lparr>order = 2, graph_type = ''directed'', edges = [''__proto__'', ''ba''],
      edge = proto_two_way_edge, node_attributes = (\<lambda>n. Map.empty),
      edge_attributes = (\<lambda>e. Map.empty)\<rparr>"

section \<open>Properties\<close>

subsection \<open>Validation and option resolution\<close>

text \<open>
  C8. For an input that is not a graph, all four exported functions throw the error of
  lines 42-44 and 117-119, whatever the options and whatever the indexer constructors
  would do (also when they would throw themselves: nothing of them is reached); the
  input is left as it was.
\<close>

theorem invalid_graph_throws:
  "\<not> isGraph x \<Longrightarrow>
     betweennessCentrality l x options =
       (x, Inl (Error ''graphology-centrality/beetweenness-centrality: the given graph is not a valid graphology instance.'')) \<and>
     betweennessCentrality_assign l x options =
       (x, Inl (Error ''graphology-centrality/beetweenness-centrality: the given graph is not a valid graphology instance.'')) \<and>
     edgeBetweennessCentrality l x options =
       (x, Inl (Error ''graphology-centrality/beetweenness-centrality: the given graph is not a valid graphology instance.'')) \<and>
     edgeBetweennessCentrality_assign l x options =
       (x, Inl (Error ''graphology-centrality/beetweenness-centrality: the given graph is not a valid graphology instance.''))"
  by (simp add: betweennessCentrality_def betweennessCentrality_assign_def
      edgeBetweennessCentrality_def edgeBetweennessCentrality_assign_def
      abstractBetweennessCentrality_def abstractEdgeBetweennessCentrality_def)

theorem invalid_graph_throws_witness:
  "\<not> isGraph (Other ''null'') \<and>
   betweennessCentrality probe_lib (Other ''null'') None =
       (Other ''null'', Inl (Error ''graphology-centrality/beetweenness-centrality: the given graph is not a valid graphology instance.'')) \<and>
   edgeBetweennessCentrality_assign probe_lib (Other ''null'') None =
       (Other ''null'', Inl (Error ''graphology-centrality/beetweenness-centrality: the given graph is not a valid graphology instance.''))"
  using invalid_graph_throws [of "Other ''null''" probe_lib None] by simp

lemma resolved_getEdgeWeight:
  "getEdgeWeight (resolveDefaults options DEFAULTS_NODE) =
     (case supplied_getEdgeWeight options of None \<Rightarrow> Some (Name ''weight'') | Some a \<Rightarrow> Some a)"
  "getEdgeWeight (resolveDefaults options DEFAULTS_EDGE) =
     (case supplied_getEdgeWeight options of None \<Rightarrow> Some (Name ''weight'') | Some a \<Rightarrow> Some a)"
  by (simp_all add: resolveDefaults_def DEFAULTS_NODE_def DEFAULTS_EDGE_def resolve_key_def
      supplied_getEdgeWeight_def Let_def split: option.splits)

text \<open>
  C1, as the code has it. When the caller supplies no \<^verbatim>\<open>getEdgeWeight\<close>, the resolved
  options of both functions hold the default accessor \<^verbatim>\<open>'weight'\<close> of lines 19 and 25,
  and the weighted (Dijkstra) constructor is called with it. When the caller supplies a
  value, the weighted constructor is called if the value is truthy and the unweighted one
  if it is falsy (\<^verbatim>\<open>null\<close>, the empty string).
\<close>

theorem default_weight_accessor_selects_dijkstra:
  "(supplied_getEdgeWeight options = None \<longrightarrow>
      getEdgeWeight (resolveDefaults options DEFAULTS_NODE) = Some (Name ''weight'') \<and>
      getEdgeWeight (resolveDefaults options DEFAULTS_EDGE) = Some (Name ''weight'') \<and>
      create_brandes l g (resolveDefaults options DEFAULTS_NODE) =
        createDijkstraIndexedBrandes l g (Some (Name ''weight'')) \<and>
      create_brandes l g (resolveDefaults options DEFAULTS_EDGE) =
        createDijkstraIndexedBrandes l g (Some (Name ''weight''))) \<and>
   (supplied_getEdgeWeight options = Some a \<longrightarrow>
      create_brandes l g (resolveDefaults options DEFAULTS_NODE) =
        (if truthy (Some a) then createDijkstraIndexedBrandes l g (Some a)
         else createUnweightedIndexedBrandes l g) \<and>
      create_brandes l g (resolveDefaults options DEFAULTS_EDGE) =
        (if truthy (Some a) then createDijkstraIndexedBrandes l g (Some a)
         else createUnweightedIndexedBrandes l g))"
  by (simp add: resolved_getEdgeWeight create_brandes_def)

theorem default_weight_accessor_selects_dijkstra_witness:
  "supplied_getEdgeWeight None = None \<and>
   create_brandes probe_lib empty_graph (resolveDefaults None DEFAULTS_EDGE) =
     Inl (Error ''createDijkstraIndexedBrandes'') \<and>
   supplied_getEdgeWeight (Some no_weight_options) = Some Null \<and>
   create_brandes probe_lib empty_graph (resolveDefaults (Some no_weight_options) DEFAULTS_NODE) =
     Inl (Error ''createUnweightedIndexedBrandes'')"
  using default_weight_accessor_selects_dijkstra [of None probe_lib empty_graph Null]
    default_weight_accessor_selects_dijkstra [of "Some no_weight_options" probe_lib empty_graph Null]
  by (simp add: supplied_getEdgeWeight_def probe_lib_def no_weight_options_def)

text \<open>
  C1 as the specification states it fails: called with no options at all, the resolved
  options do hold a truthy weight accessor, and the constructor that is called is not the
  unweighted one.
\<close>

theorem no_weight_option_counterexample:
  "truthy (getEdgeWeight (resolveDefaults None DEFAULTS_NODE)) \<and>
   create_brandes probe_lib empty_graph (resolveDefaults None DEFAULTS_NODE) \<noteq>
     createUnweightedIndexedBrandes probe_lib empty_graph \<and>
   snd (betweennessCentrality probe_lib (Graph empty_graph) None) =
     Inl (Error ''createDijkstraIndexedBrandes'') \<and>
   snd (edgeBetweennessCentrality probe_lib (Graph empty_graph) None) =
     Inl (Error ''createDijkstraIndexedBrandes'')"
  by (simp add: resolved_getEdgeWeight supplied_getEdgeWeight_def create_brandes_def
      probe_lib_def betweennessCentrality_def edgeBetweennessCentrality_def
      abstractBetweennessCentrality_def abstractEdgeBetweennessCentrality_def)

subsection \<open>The backward pass of the node accumulator\<close>

lemma accumulate_predecessors_foldl:
  "accumulate_predecessors sigma c vs delta =
     foldl (\<lambda>d v. d[v := d ! v + sigma ! v * c]) delta vs"
  by (induction vs arbitrary: delta) simp_all

lemma accumulate_empty:
  "stack_size S = 0 \<Longrightarrow> accumulate i P sigma S delta cs = Inr (S, delta, cs)"
  by (simp add: accumulate.simps)

lemma accumulate_pop:
  assumes "stack_size S = Suc n" "n < length (items S)" "items S ! n < length P"
  shows "accumulate i P sigma S delta cs =
     (case spec_node_step i P sigma (delta, cs) (items S ! n) of
        (delta', cs') \<Rightarrow> accumulate i P sigma (S\<lparr>stack_size := n\<rparr>) delta' cs')"
  using assms
  by (subst accumulate.simps)
     (simp add: pop_def nth_opt_def spec_node_step_def Let_def accumulate_predecessors_foldl)

lemma pop_order_Suc:
  "stack_size S = Suc n \<Longrightarrow> n < length (items S) \<Longrightarrow>
     pop_order S = items S ! n # pop_order (S\<lparr>stack_size := n\<rparr>)"
  by (simp add: pop_order_def take_Suc_conv_app_nth)

lemma accumulate_refines:
  "stack_size S = n \<Longrightarrow> wf_stack S P \<Longrightarrow>
   accumulate i P sigma S delta cs =
     Inr (S\<lparr>stack_size := 0\<rparr>, foldl (spec_node_step i P sigma) (delta, cs) (pop_order S))"
proof (induction n arbitrary: S delta cs)
  case 0
  then show ?case by (simp add: accumulate_empty pop_order_def)
next
  case (Suc n)
  let ?w = "items S ! n"
  let ?S = "S\<lparr>stack_size := n\<rparr>"
  from Suc.prems have n: "n < length (items S)" by (simp add: wf_stack_def)
  have po: "pop_order S = ?w # pop_order ?S"
    using Suc.prems(1) n by (rule pop_order_Suc)
  from Suc.prems po have w: "?w < length P" and wf': "wf_stack ?S P"
    by (simp_all add: wf_stack_def)
  obtain d' c' where st: "spec_node_step i P sigma (delta, cs) ?w = (d', c')"
    by (cases "spec_node_step i P sigma (delta, cs) ?w")
  have "accumulate i P sigma S delta cs = accumulate i P sigma ?S d' c'"
    using accumulate_pop [OF Suc.prems(1) n w] st by simp
  also have "\<dots> =
      Inr (?S\<lparr>stack_size := 0\<rparr>, foldl (spec_node_step i P sigma) (d', c') (pop_order ?S))"
    using wf' by (intro Suc.IH) simp_all
  finally show ?case by (simp add: po st)
qed

text \<open>
  C2. On a traversal result whose stack is well formed, the \<^verbatim>\<open>while\<close> loop of lines
  76-86 returns normally with the stack emptied, and its effect on \<open>delta\<close> and
  \<open>centralities\<close> is that of the specification's step applied to the nodes in pop
  order (last pushed first): for each popped \<open>w\<close> the coefficient is
  \<open>(1 + delta[w]) / sigma[w]\<close>, every predecessor \<open>v\<close> in \<open>P[w]\<close> gets
  \<open>sigma[v] * coefficient\<close> added to \<open>delta[v]\<close>, and \<open>delta[w]\<close> is added to
  \<open>centralities[w]\<close> exactly when \<open>w\<close> is not the source \<open>i\<close>.
\<close>

theorem node_backward_pass:
  "wf_stack S P \<Longrightarrow>
   accumulate i P sigma S delta centralities =
     Inr (S\<lparr>stack_size := 0\<rparr>,
          foldl (spec_node_step i P sigma) (delta, centralities) (pop_order S))"
  by (rule accumulate_refines [OF refl])

theorem node_backward_pass_witness:
  "wf_stack \<lparr>items = [0, 1, 2], stack_size = 3\<rparr> [[], [0], [1]] \<and>
   pop_order \<lparr>items = [0, 1, 2], stack_size = 3\<rparr> = [2, 1, 0] \<and>
   accumulate 0 [[], [0], [1]] [1, 1, 1] \<lparr>items = [0, 1, 2], stack_size = 3\<rparr>
       [0, 0, 0] [0, 0, 0] =
     Inr (\<lparr>items = [0, 1, 2], stack_size = 0\<rparr>, [2, 1, 0], [0, 1, 0])"
  using node_backward_pass [of "\<lparr>items = [0, 1, 2], stack_size = 3\<rparr>" "[[], [0], [1]]" 0
      "[1, 1, 1]" "[0, 0, 0]" "[0, 0, 0]"]
  by (simp add: wf_stack_def pop_order_def spec_node_step_def eval_nat_numeral)

subsection \<open>The backward pass of the edge accumulator\<close>

lemma add_to_ordinary: "k \<noteq> ''__proto__'' \<Longrightarrow> add_to m k c = credit m k c"
  by (simp add: add_to_def set_property_def credit_def)

lemma add_to_proto: "add_to m ''__proto__'' c = m"
  by (simp add: add_to_def set_property_def)

lemma edge_step_spec:
  "edge_step g ns sigma c w v (delta, m) =
     (delta[v := delta ! v + sigma ! v * c],
      add_to m (key (resolve_edge g ns v w)) (sigma ! v * c))"
  by (simp add: edge_step_def resolve_edge_def Let_def split: option.splits)

lemma accumulate_edge_predecessors_foldl:
  "''__proto__'' \<notin> (\<lambda>v. key (resolve_edge g ns v w)) ` set vs \<Longrightarrow>
   accumulate_edge_predecessors g ns sigma c w vs st =
     foldl (\<lambda>(delta, totals) v.
              (let c' = sigma ! v * c
               in (delta[v := delta ! v + c'], credit totals (key (resolve_edge g ns v w)) c')))
       st vs"
proof (induction vs arbitrary: st)
  case Nil
  show ?case by simp
next
  case (Cons v vs)
  obtain delta m where st: "st = (delta, m)" by (cases st)
  from Cons.prems have k: "key (resolve_edge g ns v w) \<noteq> ''__proto__''"
    and rest: "''__proto__'' \<notin> (\<lambda>v. key (resolve_edge g ns v w)) ` set vs"
    by auto
  show ?case by (simp add: Cons.IH [OF rest] st edge_step_spec add_to_ordinary [OF k] Let_def)
qed

lemma accumulate_edges_empty:
  "stack_size S = 0 \<Longrightarrow> accumulate_edges g ns P sigma S st = Inr (S, st)"
  by (simp add: accumulate_edges.simps)

lemma accumulate_edges_pop:
  assumes "stack_size S = Suc n" "n < length (items S)" "items S ! n < length P"
  shows "accumulate_edges g ns P sigma S st =
     accumulate_edges g ns P sigma (S\<lparr>stack_size := n\<rparr>)
       (accumulate_edge_predecessors g ns sigma
          ((1 + fst st ! (items S ! n)) / sigma ! (items S ! n)) (items S ! n)
          (P ! (items S ! n)) st)"
  using assms
  by (subst accumulate_edges.simps) (simp add: pop_def nth_opt_def Let_def)

text \<open>
  As long as no predecessor step resolves to the key \<^verbatim>\<open>__proto__\<close>, the loop of lines
  158-175 is the fold of the specification's step over the nodes in pop order.
\<close>

lemma accumulate_edges_refines:
  "stack_size S = n \<Longrightarrow> wf_stack S P \<Longrightarrow>
   ''__proto__'' \<notin> set (attributed_by_pass g ns P S) \<Longrightarrow>
   accumulate_edges g ns P sigma S st =
     Inr (S\<lparr>stack_size := 0\<rparr>, foldl (spec_edge_step g ns P sigma) st (pop_order S))"
proof (induction n arbitrary: S st)
  case 0
  then show ?case by (simp add: accumulate_edges_empty pop_order_def)
next
  case (Suc n)
  let ?w = "items S ! n"
  let ?S = "S\<lparr>stack_size := n\<rparr>"
  from Suc.prems have n: "n < length (items S)" by (simp add: wf_stack_def)
  have po: "pop_order S = ?w # pop_order ?S"
    using Suc.prems(1) n by (rule pop_order_Suc)
  from Suc.prems po have w: "?w < length P" and wf': "wf_stack ?S P"
    by (simp_all add: wf_stack_def)
  from Suc.prems(3) po
  have now: "''__proto__'' \<notin> (\<lambda>v. key (resolve_edge g ns v ?w)) ` set (P ! ?w)"
    and later: "''__proto__'' \<notin> set (attributed_by_pass g ns P ?S)"
    by (simp_all add: attributed_by_pass_def)
  have step: "accumulate_edge_predecessors g ns sigma ((1 + fst st ! ?w) / sigma ! ?w) ?w
      (P ! ?w) st = spec_edge_step g ns P sigma st ?w"
    by (simp add: accumulate_edge_predecessors_foldl [OF now] spec_edge_step_def Let_def)
  have "accumulate_edges g ns P sigma S st =
      accumulate_edges g ns P sigma ?S (spec_edge_step g ns P sigma st ?w)"
    using accumulate_edges_pop [OF Suc.prems(1) n w, of g ns sigma st] by (simp only: step)
  also have "\<dots> = Inr (?S\<lparr>stack_size := 0\<rparr>,
      foldl (spec_edge_step g ns P sigma) (spec_edge_step g ns P sigma st ?w) (pop_order ?S))"
    using wf' later by (intro Suc.IH) simp_all
  finally show ?case by (simp add: po)
qed

text \<open>
  On every traversal result the edge accumulator leaves the same stack and the same
  \<open>delta\<close> as the node accumulator, or throws the same error.
\<close>

lemma fst_accumulate_edge_predecessors:
  "fst (accumulate_edge_predecessors g ns sigma c w vs (delta, m)) =
     accumulate_predecessors sigma c vs delta"
  by (induction vs arbitrary: delta m) (simp_all add: edge_step_spec)

lemma accumulate_edges_delta:
  "stack_size S = n \<Longrightarrow>
   delta_of (accumulate_edges g ns P sigma S (delta, m)) =
   delta_of (accumulate i P sigma S delta cs)"
proof (induction n arbitrary: S delta m cs)
  case 0
  then show ?case by (simp add: accumulate_edges_empty accumulate_empty delta_of_def)
next
  case (Suc n)
  show ?case
  proof (cases "fst (pop S)")
    case None
    with Suc.prems show ?thesis
      by (simp add: accumulate_edges.simps [of g ns P sigma S] accumulate.simps [of i P sigma S]
          delta_of_def)
  next
    case (Some w)
    show ?thesis
    proof (cases "nth_opt P w")
      case None
      with Some Suc.prems show ?thesis
        by (simp add: accumulate_edges.simps [of g ns P sigma S] accumulate.simps [of i P sigma S]
            delta_of_def)
    next
      case (Some Pw)
      let ?c = "(1 + delta ! w) / sigma ! w"
      obtain d' m' where st:
        "accumulate_edge_predecessors g ns sigma ?c w Pw (delta, m) = (d', m')"
        by (cases "accumulate_edge_predecessors g ns sigma ?c w Pw (delta, m)")
      have d': "d' = accumulate_predecessors sigma ?c Pw delta"
        using fst_accumulate_edge_predecessors [of g ns sigma ?c w Pw delta m] st by simp
      have sz: "stack_size (snd (pop S)) = n"
        using Suc.prems by (simp add: pop_def)
      show ?thesis
        using Suc.prems \<open>fst (pop S) = Some w\<close> Some
        by (simp add: accumulate_edges.simps [of g ns P sigma S] accumulate.simps [of i P sigma S]
            Let_def st d' [symmetric] Suc.IH [OF sz])
    qed
  qed
qed

text \<open>
  When both lookups are defined and \<open>edge(v, w)\<close> has another key than \<^verbatim>\<open>__proto__\<close>,
  the step of lines 162-173 adds the contribution to the total of \<open>edge(v, w)\<close> and
  changes no other total.
\<close>

lemma forward_edge_credited:
  "edge g (nth_opt ns v) (nth_opt ns w) = Some a \<Longrightarrow>
   edge g (nth_opt ns w) (nth_opt ns v) = Some b \<Longrightarrow>
   a \<noteq> ''__proto__'' \<Longrightarrow>
   snd (edge_step g ns sigma c w v (delta, totals)) =
     totals(a \<mapsto> the (totals a) + sigma ! v * c) \<and>
   (b \<noteq> a \<longrightarrow> snd (edge_step g ns sigma c w v (delta, totals)) b = totals b)"
  by (simp add: edge_step_def add_to_def set_property_def Let_def)

text \<open>
  C3. On the path \<open>A -> B -> C\<close> whose edge \<open>A -> B\<close> has the key \<^verbatim>\<open>__proto__\<close>, the
  backward pass of source \<open>A\<close> pops \<open>C\<close> and then \<open>B\<close>. For the predecessor \<open>A\<close> of
  \<open>B\<close> the lookup \<open>edge(A, B)\<close> finds the edge and the contribution is 2; it is added to
  \<open>delta[A]\<close>, and to no total: \<^verbatim>\<open>edgeCentralities['__proto__'] += c\<close> stores nothing.
  The contribution 1 of the predecessor \<open>B\<close> of \<open>C\<close> is added to the total of \<open>BC\<close>.
\<close>

theorem proto_contribution_lost:
  "edge proto_graph (nth_opt [''A'', ''B'', ''C''] 0) (nth_opt [''A'', ''B'', ''C''] 1) =
     Some ''__proto__'' \<and>
   edge_iteration proto_graph [''A'', ''B'', ''C''] (detour_result 0)
       ([0, 0, 0], initial_edgeCentralities proto_graph) =
     Inr ([2, 1, 0], [''BC'' \<mapsto> 1])"
  by (simp add: edge_iteration_def detour_result_def proto_graph_def initial_edgeCentralities_def
      accumulate_edges.simps edge_step_def add_to_def set_property_def pop_def nth_opt_def
      Let_def eval_nat_numeral fun_eq_iff)

text \<open>
  C10. In the graph with the edge \<open>A -> B\<close> under the key \<^verbatim>\<open>__proto__\<close> and the edge
  \<open>B -> A\<close> under the key \<open>ba\<close>, both lookups are defined for the predecessor \<open>A\<close> of the
  popped \<open>B\<close>. The step takes the branch of \<open>edge(A, B)\<close>, adds the contribution 1 to
  \<open>delta[A]\<close>, and stores nothing: the total of \<open>edge(A, B)\<close> does not receive the
  contribution. The reverse edge keeps its total.
\<close>

theorem proto_forward_edge_not_credited:
  "edge proto_two_way_graph (nth_opt [''A'', ''B''] 0) (nth_opt [''A'', ''B''] 1) =
     Some ''__proto__'' \<and>
   edge proto_two_way_graph (nth_opt [''A'', ''B''] 1) (nth_opt [''A'', ''B''] 0) = Some ''ba'' \<and>
   edge_step proto_two_way_graph [''A'', ''B''] [1, 1] 1 1 0
       ([0, 0], initial_edgeCentralities proto_two_way_graph) =
     ([1, 0], [''ba'' \<mapsto> 0])"
  by (simp add: proto_two_way_graph_def initial_edgeCentralities_def edge_step_def add_to_def
      set_property_def nth_opt_def Let_def fun_eq_iff)

subsection \<open>The runs on the example graphs\<close>

lemmas run_simps =
  node_sources.simps edge_sources.simps node_iteration_def edge_iteration_def
  accumulate.simps accumulate_edges.simps edge_step_def add_to_def set_property_def
  pop_def nth_opt_def Let_def eval_nat_numeral

lemma detour_node_sources:
  "node_sources (brandes detour_indexer) (order detour_graph) 0
     (replicate (order detour_graph) 0, replicate (order detour_graph) 0) =
   Inr ([2, 2, 0], [0, 1, 0])"
  by (simp add: run_simps detour_indexer_def detour_result_def detour_graph_def)

lemma detour_edge_sources:
  "edge_sources detour_graph (nodes detour_indexer) (brandes detour_indexer) (order detour_graph) 0
     (replicate (order detour_graph) 0, initial_edgeCentralities detour_graph) =
   Inr ([2, 2, 0], [''AB'' \<mapsto> 2, ''BC'' \<mapsto> 2, ''AC'' \<mapsto> 0])"
  by (simp add: run_simps detour_indexer_def detour_result_def detour_graph_def
      initial_edgeCentralities_def fun_eq_iff)

lemma detour_create:
  "create_brandes detour_lib detour_graph (resolveDefaults None DEFAULTS_NODE) = Inr detour_indexer"
  "create_brandes detour_lib detour_graph (resolveDefaults None DEFAULTS_EDGE) = Inr detour_indexer"
  by (simp_all add: create_brandes_def detour_lib_def resolved_getEdgeWeight
      supplied_getEdgeWeight_def)

lemma path_node_sources:
  "node_sources (brandes path_indexer) (order path_graph) 0
     (replicate (order path_graph) 0, replicate (order path_graph) 0) =
   Inr ([0, 1, 2, 3], [0, 4, 4, 0])"
  by (simp add: run_simps path_indexer_def path_result_def path_graph_def)

lemma default_normalized:
  "truthy_flag (normalized (resolveDefaults None DEFAULTS_NODE))"
  "truthy_flag (normalized (resolveDefaults None DEFAULTS_EDGE))"
  by (simp_all add: resolveDefaults_def DEFAULTS_NODE_def DEFAULTS_EDGE_def resolve_key_def)

subsection \<open>The reset of delta\<close>

text \<open>
  What the loop of lines 72-74 and 153-155 resets: with \<open>j\<close> starting at \<^verbatim>\<open>S.size\<close>,
  the body sees \<open>j' = size-1, ..., 0\<close> and writes at \<^verbatim>\<open>S.items[S.size - j']\<close>, that is
  at the entries \<open>1, ..., size\<close> of the backing array. The bottom of the stack,
  \<^verbatim>\<open>S.items[0]\<close>, is not among them, and \<^verbatim>\<open>S.items[S.size]\<close>, one beyond the live
  entries, is.
\<close>

lemma reset_delta_nth:
  "i < length delta \<Longrightarrow>
   reset_delta S j delta ! i =
     (if \<exists>j' < j. nth_opt (items S) (stack_size S - j') = Some i then 0 else delta ! i)"
proof (induction j arbitrary: delta)
  case 0
  show ?case by simp
next
  case (Suc j)
  show ?case
  proof (cases "nth_opt (items S) (stack_size S - j)")
    case None
    then have "(\<exists>j' < Suc j. nth_opt (items S) (stack_size S - j') = Some i) \<longleftrightarrow>
        (\<exists>j' < j. nth_opt (items S) (stack_size S - j') = Some i)"
      by (auto simp: less_Suc_eq)
    with None Suc show ?thesis by simp
  next
    case (Some k)
    then have "(\<exists>j' < Suc j. nth_opt (items S) (stack_size S - j') = Some i) \<longleftrightarrow>
        k = i \<or> (\<exists>j' < j. nth_opt (items S) (stack_size S - j') = Some i)"
      by (auto simp: less_Suc_eq)
    with Some Suc show ?thesis by (auto simp: nth_list_update)
  qed
qed

text \<open>
  With \<open>j\<close> starting at the stack's size, the indices reset are the entries 1 to \<open>size\<close>
  of the backing array; the live entries are the entries 0 to \<open>size - 1\<close>.
\<close>

lemma reset_delta_entries:
  assumes "i < length delta"
  shows "reset_delta S (stack_size S) delta ! i =
     (if i \<in> set (drop 1 (take (Suc (stack_size S)) (items S))) then 0 else delta ! i)"
proof -
  let ?n = "stack_size S"
  have "(\<exists>j' < ?n. nth_opt (items S) (?n - j') = Some i) \<longleftrightarrow>
      (\<exists>k. 1 \<le> k \<and> k \<le> ?n \<and> k < length (items S) \<and> items S ! k = i)"
  proof
    assume "\<exists>j' < ?n. nth_opt (items S) (?n - j') = Some i"
    then obtain j' where "j' < ?n" "nth_opt (items S) (?n - j') = Some i" by blast
    then have "1 \<le> ?n - j' \<and> ?n - j' \<le> ?n \<and> ?n - j' < length (items S) \<and>
        items S ! (?n - j') = i"
      by (auto simp: nth_opt_def split: if_splits)
    then show "\<exists>k. 1 \<le> k \<and> k \<le> ?n \<and> k < length (items S) \<and> items S ! k = i" by blast
  next
    assume "\<exists>k. 1 \<le> k \<and> k \<le> ?n \<and> k < length (items S) \<and> items S ! k = i"
    then obtain k where k: "1 \<le> k" "k \<le> ?n" "k < length (items S)" "items S ! k = i" by blast
    then have "?n - k < ?n" "?n - (?n - k) = k" by auto
    with k show "\<exists>j' < ?n. nth_opt (items S) (?n - j') = Some i"
      by (intro exI [of _ "?n - k"]) (simp add: nth_opt_def)
  qed
  also have "\<dots> \<longleftrightarrow> i \<in> set (drop 1 (take (Suc ?n) (items S)))"
  proof
    assume "\<exists>k. 1 \<le> k \<and> k \<le> ?n \<and> k < length (items S) \<and> items S ! k = i"
    then obtain k where k: "1 \<le> k" "k \<le> ?n" "k < length (items S)" "items S ! k = i" by blast
    then have "k - 1 < length (drop 1 (take (Suc ?n) (items S)))"
      "drop 1 (take (Suc ?n) (items S)) ! (k - 1) = i"
      by auto
    then show "i \<in> set (drop 1 (take (Suc ?n) (items S)))"
      using nth_mem by blast
  next
    assume "i \<in> set (drop 1 (take (Suc ?n) (items S)))"
    then obtain m where m: "m < length (drop 1 (take (Suc ?n) (items S)))"
      "drop 1 (take (Suc ?n) (items S)) ! m = i"
      by (auto simp: in_set_conv_nth)
    then have "1 \<le> Suc m \<and> Suc m \<le> ?n \<and> Suc m < length (items S) \<and> items S ! Suc m = i"
      by auto
    then show "\<exists>k. 1 \<le> k \<and> k \<le> ?n \<and> k < length (items S) \<and> items S ! k = i" by blast
  qed
  finally show ?thesis using reset_delta_nth [OF assms, of S ?n] by simp
qed

text \<open>
  C7. On the path \<open>A - B - C - D\<close> the iteration of source 0 leaves
  \<open>delta = [3, 2, 1, 0]\<close>. The stack of source 1 holds the indices 1, 0, 2, 3, so all
  four entries of \<open>delta\<close> would have to be reset; the loop resets the entries 0, 2 and 3
  and leaves \<open>delta[1] = 2\<close>, the entry of the source at the bottom of the stack.
\<close>

theorem reset_skips_source:
  "node_iteration 0 (path_result 0) ([0, 0, 0, 0], [0, 0, 0, 0]) =
     Inr ([3, 2, 1, 0], [0, 2, 1, 0]) \<and>
   pop_order (fst (path_result 1)) = [3, 2, 0, 1] \<and>
   reset_delta (fst (path_result 1)) (stack_size (fst (path_result 1))) [3, 2, 1, 0] =
     [0, 2, 0, 0]"
  by (simp add: run_simps path_result_def pop_order_def)

subsection \<open>Rescaling of the node centralities\<close>

lemma length_scale_centralities [simp]:
  "length (scale_centralities s N i cs) = length cs"
  by (induction s N i cs rule: scale_centralities.induct)
     (subst scale_centralities.simps, simp)

lemma nth_scale_centralities:
  "k < length cs \<Longrightarrow>
   scale_centralities s N i cs ! k = (if i \<le> k \<and> k < N then cs ! k * s else cs ! k)"
proof (induction s N i cs rule: scale_centralities.induct)
  case (1 s N i cs)
  show ?case
  proof (cases "i < N")
    case True
    have le: "Suc i \<le> k \<longleftrightarrow> i \<le> k \<and> k \<noteq> i" by arith
    from True 1 show ?thesis
      by (subst scale_centralities.simps) (simp add: nth_list_update le)
  next
    case False
    then show ?thesis by (subst scale_centralities.simps) simp
  qed
qed

lemma scale_centralities_map:
  "length cs = N \<Longrightarrow> scale_centralities s N 0 cs = map (\<lambda>c. c * s) cs"
  by (rule nth_equalityI) (simp_all add: nth_scale_centralities)

lemma rescale_cases:
  "length cs = N \<Longrightarrow>
   rescale is_normalized N g cs =
     (if is_normalized then
        (if 2 < N then map (\<lambda>c. c * (1 / ((real N - 1) * (real N - 2)))) cs else cs)
      else (if graph_type g = ''undirected'' then map (\<lambda>c. c * 0.5) cs else cs))"
  by (simp add: rescale_def node_scale_def scale_centralities_map)

lemma length_reset_delta [simp]: "length (reset_delta S j delta) = length delta"
  by (induction j arbitrary: delta) (simp_all split: option.splits)

lemma length_accumulate_predecessors [simp]:
  "length (accumulate_predecessors sigma c vs delta) = length delta"
  by (induction vs arbitrary: delta) simp_all

lemma accumulate_lengths:
  "accumulate i P sigma S delta cs = Inr (S', delta', cs') \<Longrightarrow>
   length delta' = length delta \<and> length cs' = length cs"
proof (induction i P sigma S delta cs rule: accumulate.induct)
  case (1 i P sigma S delta cs)
  show ?case
  proof (cases "stack_size S = 0")
    case True
    with "1.prems" show ?thesis by (simp add: accumulate.simps)
  next
    case False
    from "1.prems" False obtain w where w: "fst (pop S) = Some w"
      by (subst (asm) accumulate.simps) (auto split: option.splits)
    from "1.prems" False w obtain Pw where Pw: "nth_opt P w = Some Pw"
      by (subst (asm) accumulate.simps) (auto split: option.splits)
    let ?c = "(1 + delta ! w) / sigma ! w"
    let ?d = "accumulate_predecessors sigma ?c Pw delta"
    let ?cs = "if w \<noteq> i then cs[w := cs ! w + ?d ! w] else cs"
    have "accumulate i P sigma (snd (pop S)) ?d ?cs = Inr (S', delta', cs')"
      using "1.prems" False w Pw by (subst (asm) accumulate.simps) (simp add: Let_def)
    from "1.IH" [OF False w Pw refl refl refl this] show ?thesis by simp
  qed
qed

lemma node_iteration_lengths:
  "node_iteration i r (delta, cs) = Inr (delta', cs') \<Longrightarrow>
   length delta' = length delta \<and> length cs' = length cs"
  by (cases r) (auto simp: node_iteration_def split: sum.splits dest!: accumulate_lengths)

lemma node_sources_lengths:
  "node_sources f N i st = Inr st' \<Longrightarrow>
   length (fst st') = length (fst st) \<and> length (snd st') = length (snd st)"
proof (induction f N i st rule: node_sources.induct)
  case (1 f N i st)
  show ?case
  proof (cases "i < N")
    case False
    with "1.prems" show ?thesis by (simp add: node_sources.simps)
  next
    case True
    from "1.prems" True obtain r where r: "f i = Inr r"
      by (subst (asm) node_sources.simps) (auto split: sum.splits)
    from "1.prems" True r obtain st1 where st1: "node_iteration i r st = Inr st1"
      by (subst (asm) node_sources.simps) (auto split: sum.splits)
    have "node_sources f N (Suc i) st1 = Inr st'"
      using "1.prems" True r st1 by (subst (asm) node_sources.simps) simp
    from "1.IH" [OF True r st1 this] node_iteration_lengths [of i r "fst st" "snd st" "fst st1" "snd st1"] st1
    show ?thesis by simp
  qed
qed

lemma node_unfold:
  "abstractBetweennessCentrality l assign (Graph g) options =
     (let cfg = resolveDefaults options DEFAULTS_NODE in
      case create_brandes l g cfg of
        Inl e \<Rightarrow> (Graph g, Inl e)
      | Inr ix \<Rightarrow>
          (case node_sources (brandes ix) (order g) 0
                  (replicate (order g) 0, replicate (order g) 0) of
             Inl e \<Rightarrow> (Graph g, Inl e)
           | Inr st \<Rightarrow>
               (if assign
                then (Graph (index_assign ix g (key (nodeCentralityAttribute cfg))
                        (rescale (truthy_flag (normalized cfg)) (order g) g (snd st))),
                      Inr Undefined)
                else (Graph g, Inr (Mapping (index_collect ix
                        (rescale (truthy_flag (normalized cfg)) (order g) g (snd st))))))))"
  by (simp add: abstractBetweennessCentrality_def Let_def split: sum.splits prod.splits)

lemma rescale_node_rescaled:
  "length raw = order g \<Longrightarrow> rescale b (order g) g raw = node_rescaled b g raw"
  by (simp add: rescale_cases node_rescaled_def)

text \<open>
  C4. When the indexer is constructed and the source loop returns the raw sums, the
  collect variant returns, and the assign variant writes, the sums rescaled as the
  specification says, with \<open>N\<close> the node count: multiplied by \<open>1 / ((N-1)(N-2))\<close> under
  normalization when \<open>N > 2\<close>, by \<open>0.5\<close> without normalization when the graph is
  undirected, and unchanged otherwise.
\<close>

theorem node_rescaling:
  "create_brandes l g (resolveDefaults options DEFAULTS_NODE) = Inr ix \<Longrightarrow>
   node_sources (brandes ix) (order g) 0 (replicate (order g) 0, replicate (order g) 0) =
     Inr (delta, raw) \<Longrightarrow>
   betweennessCentrality l (Graph g) options =
     (Graph g, Inr (Mapping (index_collect ix
        (node_rescaled (truthy_flag (normalized (resolveDefaults options DEFAULTS_NODE))) g raw)))) \<and>
   betweennessCentrality_assign l (Graph g) options =
     (Graph (index_assign ix g (key (nodeCentralityAttribute (resolveDefaults options DEFAULTS_NODE)))
        (node_rescaled (truthy_flag (normalized (resolveDefaults options DEFAULTS_NODE))) g raw)),
      Inr Undefined)"
proof -
  assume c: "create_brandes l g (resolveDefaults options DEFAULTS_NODE) = Inr ix"
    and s: "node_sources (brandes ix) (order g) 0 (replicate (order g) 0, replicate (order g) 0) =
      Inr (delta, raw)"
  from node_sources_lengths [OF s] have "length raw = order g" by simp
  then show ?thesis
    by (simp add: betweennessCentrality_def betweennessCentrality_assign_def node_unfold c s
        rescale_node_rescaled Let_def)
qed

theorem node_rescaling_witness:
  "create_brandes detour_lib detour_graph (resolveDefaults None DEFAULTS_NODE) = Inr detour_indexer \<and>
   node_sources (brandes detour_indexer) (order detour_graph) 0
     (replicate (order detour_graph) 0, replicate (order detour_graph) 0) =
     Inr ([2, 2, 0], [0, 1, 0]) \<and>
   betweennessCentrality detour_lib (Graph detour_graph) None =
     (Graph detour_graph, Inr (Mapping (index_collect detour_indexer [0, 1 / 2, 0])))"
proof -
  from node_rescaling [OF detour_create(1) detour_node_sources, THEN conjunct1]
  have "betweennessCentrality detour_lib (Graph detour_graph) None =
      (Graph detour_graph,
       Inr (Mapping (index_collect detour_indexer (node_rescaled True detour_graph [0, 1, 0]))))"
    by (simp add: default_normalized)
  moreover have "node_rescaled True detour_graph [0, 1, 0] = [0, 1 / 2, 0]"
    by (simp add: node_rescaled_def detour_graph_def)
  ultimately show ?thesis by (simp add: detour_create detour_node_sources)
qed

subsection \<open>The edge totals\<close>

lemma initial_fold:
  "fold (\<lambda>e m. set_property m e (0::real)) es m =
     (\<lambda>k. if k \<in> set es \<and> k \<noteq> ''__proto__'' then Some 0 else m k)"
  by (induction es arbitrary: m) (auto simp: fun_eq_iff set_property_def)

lemma initial_edgeCentralities_eq:
  "initial_edgeCentralities g =
     (\<lambda>k. if k \<in> set (edges g) \<and> k \<noteq> ''__proto__'' then Some 0 else None)"
  by (simp add: initial_edgeCentralities_def initial_fold)

lemma dom_add_to: "dom m \<subseteq> dom (add_to m k c)"
  by (auto simp: add_to_def set_property_def)

lemma add_to_other: "e \<noteq> k \<or> e = ''__proto__'' \<Longrightarrow> add_to m k c e = m e"
  by (auto simp: add_to_def set_property_def)

lemma edge_predecessors_dom:
  "dom (snd st) \<subseteq> dom (snd (accumulate_edge_predecessors g ns sigma c w vs st))"
proof (induction vs arbitrary: st)
  case Nil
  show ?case by simp
next
  case (Cons v vs)
  obtain delta m where st: "st = (delta, m)" by (cases st)
  have "dom (snd st) \<subseteq> dom (snd (edge_step g ns sigma c w v st))"
    by (simp add: st edge_step_spec dom_add_to)
  also have "\<dots> \<subseteq> dom (snd (accumulate_edge_predecessors g ns sigma c w vs
      (edge_step g ns sigma c w v st)))"
    by (rule Cons.IH)
  finally show ?case by simp
qed

lemma edge_predecessors_other:
  "e = ''__proto__'' \<or> e \<notin> (\<lambda>v. key (resolve_edge g ns v w)) ` set vs \<Longrightarrow>
   snd (accumulate_edge_predecessors g ns sigma c w vs st) e = snd st e"
proof (induction vs arbitrary: st)
  case Nil
  show ?case by simp
next
  case (Cons v vs)
  obtain delta m where st: "st = (delta, m)" by (cases st)
  from Cons.prems have "e \<noteq> key (resolve_edge g ns v w) \<or> e = ''__proto__''" by auto
  then have "snd (edge_step g ns sigma c w v st) e = snd st e"
    by (simp add: st edge_step_spec add_to_other)
  moreover from Cons.prems
  have "e = ''__proto__'' \<or> e \<notin> (\<lambda>v. key (resolve_edge g ns v w)) ` set vs" by auto
  ultimately show ?case using Cons.IH by simp
qed

lemma accumulate_edges_Inr:
  assumes "accumulate_edges g ns P sigma S st = Inr r" "stack_size S \<noteq> 0"
  obtains w where "fst (pop S) = Some w" "w < length P"
    "stack_size S - 1 < length (items S)" "w = items S ! (stack_size S - 1)"
    "accumulate_edges g ns P sigma (snd (pop S))
       (accumulate_edge_predecessors g ns sigma ((1 + fst st ! w) / sigma ! w) w (P ! w) st) = Inr r"
proof -
  from assms obtain w where w: "fst (pop S) = Some w"
    by (subst (asm) accumulate_edges.simps) (auto split: option.splits)
  from assms w obtain Pw where Pw: "nth_opt P w = Some Pw"
    by (subst (asm) accumulate_edges.simps) (auto split: option.splits)
  from Pw have wP: "w < length P" "Pw = P ! w"
    by (auto simp: nth_opt_def split: if_splits)
  from w assms(2) have n: "stack_size S - 1 < length (items S)" "w = items S ! (stack_size S - 1)"
    by (auto simp: pop_def nth_opt_def split: if_splits)
  have "accumulate_edges g ns P sigma (snd (pop S))
       (accumulate_edge_predecessors g ns sigma ((1 + fst st ! w) / sigma ! w) w (P ! w) st) = Inr r"
    using assms w Pw wP by (subst (asm) accumulate_edges.simps) (simp add: Let_def)
  with w wP n show thesis by (rule_tac that)
qed

lemma accumulate_edges_totals:
  "stack_size S = n \<Longrightarrow> accumulate_edges g ns P sigma S st = Inr (S', st') \<Longrightarrow>
   dom (snd st) \<subseteq> dom (snd st') \<and>
   (e = ''__proto__'' \<or> e \<notin> set (attributed_by_pass g ns P S) \<longrightarrow> snd st' e = snd st e)"
proof (induction n arbitrary: S st)
  case 0
  then show ?case by (simp add: accumulate_edges_empty)
next
  case (Suc n)
  from Suc.prems have nz: "stack_size S \<noteq> 0" by simp
  from Suc.prems(2) nz obtain w where w: "fst (pop S) = Some w" "w < length P"
    "stack_size S - 1 < length (items S)" "w = items S ! (stack_size S - 1)"
    and rec: "accumulate_edges g ns P sigma (snd (pop S))
       (accumulate_edge_predecessors g ns sigma ((1 + fst st ! w) / sigma ! w) w (P ! w) st)
        = Inr (S', st')"
    by (rule accumulate_edges_Inr)
  let ?st = "accumulate_edge_predecessors g ns sigma ((1 + fst st ! w) / sigma ! w) w (P ! w) st"
  have pS: "snd (pop S) = S\<lparr>stack_size := n\<rparr>"
    using Suc.prems(1) by (simp add: pop_def)
  have po: "pop_order S = w # pop_order (snd (pop S))"
    using pop_order_Suc [of S n] Suc.prems(1) w pS by simp
  have sz: "stack_size (snd (pop S)) = n" by (simp add: pS)
  note IH = Suc.IH [OF sz rec]
  have att: "set (attributed_by_pass g ns P S) =
      (\<lambda>v. key (resolve_edge g ns v w)) ` set (P ! w) \<union>
      set (attributed_by_pass g ns P (snd (pop S)))"
    by (simp add: attributed_by_pass_def po)
  have d: "dom (snd st) \<subseteq> dom (snd ?st)" by (rule edge_predecessors_dom)
  show ?case
  proof (intro conjI impI)
    show "dom (snd st) \<subseteq> dom (snd st')" using d IH by blast
  next
    assume e: "e = ''__proto__'' \<or> e \<notin> set (attributed_by_pass g ns P S)"
    with att have "snd ?st e = snd st e"
      by (intro edge_predecessors_other) auto
    moreover from e att IH have "snd st' e = snd ?st e" by auto
    ultimately show "snd st' e = snd st e" by simp
  qed
qed

lemma edge_iteration_totals:
  assumes "edge_iteration g ns (S, P, sigma) st = Inr st'"
  shows "dom (snd st) \<subseteq> dom (snd st') \<and>
   (e = ''__proto__'' \<or> e \<notin> set (attributed_by_pass g ns P S) \<longrightarrow> snd st' e = snd st e)"
proof -
  obtain delta m where st: "st = (delta, m)" by (cases st)
  from assms obtain S' where
    "accumulate_edges g ns P sigma S (reset_delta S (stack_size S) delta, m) = Inr (S', st')"
    by (auto simp: edge_iteration_def st split: sum.splits)
  from accumulate_edges_totals [OF refl this, of e] show ?thesis by (simp add: st)
qed

lemma edge_sources_totals:
  "edge_sources g (nodes ix) (brandes ix) N i st = Inr st' \<Longrightarrow>
   dom (snd st) \<subseteq> dom (snd st') \<and>
   (e = ''__proto__'' \<or> e \<notin> set (attributed_from g ix i N) \<longrightarrow> snd st' e = snd st e)"
proof (induction g "nodes ix" "brandes ix" N i st rule: edge_sources.induct)
  case (1 g N i st)
  show ?case
  proof (cases "i < N")
    case False
    with "1.prems" show ?thesis by (simp add: edge_sources.simps)
  next
    case True
    from "1.prems" True obtain r where r: "brandes ix i = Inr r"
      by (subst (asm) edge_sources.simps) (auto split: sum.splits)
    from "1.prems" True r obtain st1 where st1: "edge_iteration g (nodes ix) r st = Inr st1"
      by (subst (asm) edge_sources.simps) (auto split: sum.splits)
    have rec: "edge_sources g (nodes ix) (brandes ix) N (Suc i) st1 = Inr st'"
      using "1.prems" True r st1 by (subst (asm) edge_sources.simps) simp
    obtain S P sigma where rr: "r = (S, P, sigma)" by (cases r)
    note A = edge_iteration_totals [OF st1 [unfolded rr], of e]
    note B = "1.hyps" [OF True r st1 rec]
    have att: "set (attributed_from g ix i N) =
        set (attributed_by_pass g (nodes ix) P S) \<union> set (attributed_from g ix (Suc i) N)"
      using True r rr by (simp add: attributed_from_def upt_conv_Cons)
    show ?thesis
    proof (intro conjI impI)
      show "dom (snd st) \<subseteq> dom (snd st')" using A B by blast
    next
      assume "e = ''__proto__'' \<or> e \<notin> set (attributed_from g ix i N)"
      with A B att show "snd st' e = snd st e" by auto
    qed
  qed
qed

lemma fold_scale:
  "distinct es \<Longrightarrow> list_all (\<lambda>e. e \<noteq> ''__proto__'' \<longrightarrow> e \<in> dom m) es \<Longrightarrow>
   m ''__proto__'' = None \<Longrightarrow>
   fold (\<lambda>e m. set_property m e (the (m e) * s)) es m = scale_edges s es m"
proof (induction es arbitrary: m)
  case Nil
  show ?case by (simp add: scale_edges_def)
next
  case (Cons e es)
  let ?m = "set_property m e (the (m e) * s)"
  from Cons.prems have d: "distinct es"
    and sub: "list_all (\<lambda>e. e \<noteq> ''__proto__'' \<longrightarrow> e \<in> dom ?m) es"
    and p: "?m ''__proto__'' = None"
    by (auto simp: set_property_def list_all_iff)
  have "fold (\<lambda>e m. set_property m e (the (m e) * s)) es ?m = scale_edges s es ?m"
    using d sub p by (rule Cons.IH)
  also have "\<dots> = scale_edges s (e # es) m"
    using Cons.prems by (auto simp: scale_edges_def set_property_def fun_eq_iff)
  finally show ?case by simp
qed

lemma fold_scale_dom:
  "dom m \<subseteq> dom (fold (\<lambda>e m. set_property m e (the (m e) * s)) es m)"
proof (induction es arbitrary: m)
  case Nil
  show ?case by simp
next
  case (Cons e es)
  have "dom m \<subseteq> dom (set_property m e (the (m e) * s))" by (auto simp: set_property_def)
  also note Cons.IH
  finally show ?case by simp
qed

lemma fold_scale_zero:
  "m e = Some 0 \<Longrightarrow>
   fold (\<lambda>e m. set_property m e (the (m e) * s)) es m e = Some (0::real)"
proof (induction es arbitrary: m)
  case Nil
  then show ?case by simp
next
  case (Cons a es)
  from Cons.prems have "set_property m a (the (m a) * s) e = Some 0"
    by (auto simp: set_property_def)
  then have "fold (\<lambda>e m. set_property m e (the (m e) * s)) es
      (set_property m a (the (m a) * s)) e = Some 0"
    by (rule Cons.IH)
  then show ?case by simp
qed

lemma rescale_edges_dom: "dom m \<subseteq> dom (rescale_edges b N g m)"
  by (simp add: rescale_edges_def fold_scale_dom split: option.splits)

lemma rescale_edges_zero: "m e = Some 0 \<Longrightarrow> rescale_edges b N g m e = Some 0"
  by (simp add: rescale_edges_def fold_scale_zero split: option.splits)

lemma rescale_edges_cases:
  "distinct (edges g) \<Longrightarrow>
   list_all (\<lambda>e. e \<noteq> ''__proto__'' \<longrightarrow> e \<in> dom totals) (edges g) \<Longrightarrow>
   totals ''__proto__'' = None \<Longrightarrow>
   rescale_edges is_normalized N g totals =
     (if is_normalized then
        (if 1 < N then scale_edges (1 / (real N * (real N - 1))) (edges g) totals else totals)
      else (if graph_type g = ''undirected'' then scale_edges 0.5 (edges g) totals else totals))"
proof -
  assume a: "distinct (edges g)"
    "list_all (\<lambda>e. e \<noteq> ''__proto__'' \<longrightarrow> e \<in> dom totals) (edges g)"
    "totals ''__proto__'' = None"
  have F: "fold (\<lambda>e m. set_property m e (the (m e) * s)) (edges g) totals =
      scale_edges s (edges g) totals"
    for s using a by (rule fold_scale)
  have R: "rescale_edges is_normalized N g totals =
      (case edge_scale is_normalized N g of
         None \<Rightarrow> totals
       | Some s \<Rightarrow> scale_edges s (edges g) totals)"
    by (simp only: rescale_edges_def F)
  show ?thesis by (simp add: R edge_scale_def)
qed

lemma edge_unfold:
  "abstractEdgeBetweennessCentrality l assign (Graph g) options =
     (let cfg = resolveDefaults options DEFAULTS_EDGE in
      case create_brandes l g cfg of
        Inl e \<Rightarrow> (Graph g, Inl e)
      | Inr ix \<Rightarrow>
          (case edge_sources g (nodes ix) (brandes ix) (order g) 0
                  (replicate (order g) 0, initial_edgeCentralities g) of
             Inl e \<Rightarrow> (Graph g, Inl e)
           | Inr st \<Rightarrow>
               (if assign
                then (Graph (updateEachEdgeAttributes g (key (edgeCentralityAttribute cfg))
                        (rescale_edges (truthy_flag (normalized cfg)) (order g) g (snd st))),
                      Inr Undefined)
                else (Graph g, Inr (Mapping
                        (rescale_edges (truthy_flag (normalized cfg)) (order g) g (snd st)))))))"
  by (simp add: abstractEdgeBetweennessCentrality_def Let_def split: sum.splits prod.splits)

lemma rescale_edges_edge_rescaled:
  "distinct (edges g) \<Longrightarrow>
   list_all (\<lambda>e. e \<noteq> ''__proto__'' \<longrightarrow> e \<in> dom totals) (edges g) \<Longrightarrow>
   totals ''__proto__'' = None \<Longrightarrow>
   rescale_edges b (order g) g totals = edge_rescaled b g totals"
  by (simp add: rescale_edges_cases edge_rescaled_def)

lemma edge_sources_initial:
  assumes "edge_sources g (nodes ix) (brandes ix) N 0 (d0, initial_edgeCentralities g) = Inr st"
  shows "list_all (\<lambda>e. e \<noteq> ''__proto__'' \<longrightarrow> e \<in> dom (snd st)) (edges g)"
    and "snd st ''__proto__'' = None"
    and "e \<in> set (edges g) \<Longrightarrow> e \<noteq> ''__proto__'' \<Longrightarrow>
         e \<notin> set (attributed_from g ix 0 N) \<Longrightarrow> snd st e = Some 0"
proof -
  note T = edge_sources_totals [OF assms]
  from T [of "''__proto__''"]
  show "list_all (\<lambda>e. e \<noteq> ''__proto__'' \<longrightarrow> e \<in> dom (snd st)) (edges g)"
    by (auto simp: initial_edgeCentralities_eq list_all_iff dom_def split: if_splits)
  from T [of "''__proto__''"] show "snd st ''__proto__'' = None"
    by (simp add: initial_edgeCentralities_eq)
  assume "e \<in> set (edges g)" "e \<noteq> ''__proto__''" "e \<notin> set (attributed_from g ix 0 N)"
  with T [of e] show "snd st e = Some 0" by (simp add: initial_edgeCentralities_eq)
qed

lemma detour_edge_run:
  "edgeBetweennessCentrality detour_lib (Graph detour_graph) None =
     (Graph detour_graph,
      Inr (Mapping (edge_rescaled True detour_graph [''AB'' \<mapsto> 2, ''BC'' \<mapsto> 2, ''AC'' \<mapsto> 0])))"
proof -
  have d: "distinct (edges detour_graph)" by (simp add: detour_graph_def)
  have s: "list_all (\<lambda>e. e \<noteq> ''__proto__'' \<longrightarrow>
      e \<in> dom [''AB'' \<mapsto> 2::real, ''BC'' \<mapsto> 2, ''AC'' \<mapsto> 0]) (edges detour_graph)"
    by (simp add: detour_graph_def)
  have p: "[''AB'' \<mapsto> 2::real, ''BC'' \<mapsto> 2, ''AC'' \<mapsto> 0] ''__proto__'' = None" by simp
  show ?thesis
    by (simp add: edgeBetweennessCentrality_def edge_unfold detour_create detour_edge_sources
        default_normalized rescale_edges_edge_rescaled [OF d s p] Let_def del: fun_upd_apply)
qed

text \<open>
  An edge with another key than \<^verbatim>\<open>__proto__\<close> has the total 0 after the initialization
  of lines 136-140; when the collect variant returns a mapping, the edge is a key of it,
  with the value 0 if no predecessor step resolved to it.
\<close>

lemma ordinary_edge_initialised:
  "e \<in> set (edges g) \<Longrightarrow> e \<noteq> ''__proto__'' \<Longrightarrow>
   initial_edgeCentralities g e = Some 0 \<and>
   (edgeBetweennessCentrality l (Graph g) options = (x, Inr (Mapping m)) \<longrightarrow>
      e \<in> dom m \<and>
      (create_brandes l g (resolveDefaults options DEFAULTS_EDGE) = Inr ix \<longrightarrow>
       e \<notin> set (attributed_from g ix 0 (order g)) \<longrightarrow> m e = Some 0))"
proof (intro conjI impI)
  assume e: "e \<in> set (edges g)" and ne: "e \<noteq> ''__proto__''"
  then show "initial_edgeCentralities g e = Some 0" by (simp add: initial_edgeCentralities_eq)
  assume run: "edgeBetweennessCentrality l (Graph g) options = (x, Inr (Mapping m))"
  let ?cfg = "resolveDefaults options DEFAULTS_EDGE"
  from run obtain ix' st where ix': "create_brandes l g ?cfg = Inr ix'"
    and st: "edge_sources g (nodes ix') (brandes ix') (order g) 0
               (replicate (order g) 0, initial_edgeCentralities g) = Inr st"
    and m: "m = rescale_edges (truthy_flag (normalized ?cfg)) (order g) g (snd st)"
    by (auto simp: edgeBetweennessCentrality_def edge_unfold Let_def split: sum.splits)
  from edge_sources_initial(1) [OF st] e ne have "e \<in> dom (snd st)"
    by (auto simp: list_all_iff)
  with rescale_edges_dom show "e \<in> dom m" unfolding m by blast
  assume "create_brandes l g ?cfg = Inr ix" "e \<notin> set (attributed_from g ix 0 (order g))"
  with ix' have "e \<notin> set (attributed_from g ix' 0 (order g))" by simp
  from edge_sources_initial(3) [OF st e ne this] show "m e = Some 0"
    unfolding m by (rule rescale_edges_zero)
qed

lemma proto_edge_sources:
  "edge_sources proto_graph (nodes detour_indexer) (brandes detour_indexer) (order proto_graph) 0
     (replicate (order proto_graph) 0, initial_edgeCentralities proto_graph) =
   Inr ([2, 2, 0], [''BC'' \<mapsto> 2])"
  by (simp add: run_simps detour_indexer_def detour_result_def proto_graph_def
      initial_edgeCentralities_def fun_eq_iff)

text \<open>
  C6. The path \<open>A -> B -> C\<close> has the edge \<open>A -> B\<close> under the key \<^verbatim>\<open>__proto__\<close>. The
  initialization of lines 136-140 stores no total for it, and the mapping that the
  collect variant returns, with the default options, has the key \<open>BC\<close> alone: the edge
  \<open>A -> B\<close>, which lies on the shortest paths from \<open>A\<close>, is not in the result.
\<close>

theorem proto_edge_missing:
  "''__proto__'' \<in> set (edges proto_graph) \<and>
   initial_edgeCentralities proto_graph ''__proto__'' = None \<and>
   edgeBetweennessCentrality detour_lib (Graph proto_graph) None =
     (Graph proto_graph, Inr (Mapping [''BC'' \<mapsto> 1 / 3]))"
proof -
  have c: "create_brandes detour_lib proto_graph (resolveDefaults None DEFAULTS_EDGE) =
      Inr detour_indexer"
    by (simp add: create_brandes_def detour_lib_def resolved_getEdgeWeight
        supplied_getEdgeWeight_def)
  have r: "rescale_edges True (order proto_graph) proto_graph [''BC'' \<mapsto> 2] =
      [''BC'' \<mapsto> 1 / 3]"
    by (simp add: rescale_edges_def edge_scale_def set_property_def proto_graph_def fun_eq_iff)
  have "edgeBetweennessCentrality detour_lib (Graph proto_graph) None =
      (Graph proto_graph, Inr (Mapping [''BC'' \<mapsto> 1 / 3]))"
    by (simp add: edgeBetweennessCentrality_def edge_unfold c proto_edge_sources
        default_normalized r Let_def del: fun_upd_apply)
  then show ?thesis
    by (simp add: initial_edgeCentralities_eq) (simp add: proto_graph_def)
qed

text \<open>
  C5. When the graph enumerates each edge once, the indexer is constructed and the source
  loop returns the raw totals, the collect variant returns, and the assign variant
  writes, the totals rescaled as the specification says, with \<open>N\<close> the node count: every
  edge's total multiplied by \<open>1 / (N(N-1))\<close> under normalization when \<open>N > 1\<close>, by \<open>0.5\<close>
  without normalization when the graph is undirected, and unchanged otherwise.
\<close>

theorem edge_rescaling:
  "distinct (edges g) \<Longrightarrow>
   create_brandes l g (resolveDefaults options DEFAULTS_EDGE) = Inr ix \<Longrightarrow>
   edge_sources g (nodes ix) (brandes ix) (order g) 0
       (replicate (order g) 0, initial_edgeCentralities g) = Inr (delta, totals) \<Longrightarrow>
   edgeBetweennessCentrality l (Graph g) options =
     (Graph g, Inr (Mapping
        (edge_rescaled (truthy_flag (normalized (resolveDefaults options DEFAULTS_EDGE))) g totals))) \<and>
   edgeBetweennessCentrality_assign l (Graph g) options =
     (Graph (updateEachEdgeAttributes g
        (key (edgeCentralityAttribute (resolveDefaults options DEFAULTS_EDGE)))
        (edge_rescaled (truthy_flag (normalized (resolveDefaults options DEFAULTS_EDGE))) g totals)),
      Inr Undefined)"
proof -
  assume d: "distinct (edges g)"
    and c: "create_brandes l g (resolveDefaults options DEFAULTS_EDGE) = Inr ix"
    and s: "edge_sources g (nodes ix) (brandes ix) (order g) 0
       (replicate (order g) 0, initial_edgeCentralities g) = Inr (delta, totals)"
  from edge_sources_initial(1, 2) [OF s]
  have "list_all (\<lambda>e. e \<noteq> ''__proto__'' \<longrightarrow> e \<in> dom totals) (edges g)"
    and "totals ''__proto__'' = None"
    by simp_all
  with d show ?thesis
    by (simp add: edgeBetweennessCentrality_def edgeBetweennessCentrality_assign_def edge_unfold
        c s rescale_edges_edge_rescaled Let_def)
qed

theorem edge_rescaling_witness:
  "distinct (edges detour_graph) \<and>
   create_brandes detour_lib detour_graph (resolveDefaults None DEFAULTS_EDGE) = Inr detour_indexer \<and>
   edge_sources detour_graph (nodes detour_indexer) (brandes detour_indexer) (order detour_graph) 0
     (replicate (order detour_graph) 0, initial_edgeCentralities detour_graph) =
     Inr ([2, 2, 0], [''AB'' \<mapsto> 2, ''BC'' \<mapsto> 2, ''AC'' \<mapsto> 0]) \<and>
   value_at ''AB'' (snd (edgeBetweennessCentrality detour_lib (Graph detour_graph) None)) =
     Some (1 / 3) \<and>
   value_at ''AC'' (snd (edgeBetweennessCentrality detour_lib (Graph detour_graph) None)) = Some 0"
proof -
  have d: "distinct (edges detour_graph)" by (simp add: detour_graph_def)
  from edge_rescaling [OF d detour_create(2) detour_edge_sources, THEN conjunct1]
  have "snd (edgeBetweennessCentrality detour_lib (Graph detour_graph) None) =
      Inr (Mapping (edge_rescaled True detour_graph [''AB'' \<mapsto> 2, ''BC'' \<mapsto> 2, ''AC'' \<mapsto> 0]))"
    by (simp add: default_normalized)
  then show ?thesis
    by (simp add: d detour_create detour_edge_sources)
       (simp add: edge_rescaled_def scale_edges_def detour_graph_def)
qed

subsection \<open>Raw and normalized output\<close>

lemma collect_fold_map:
  "set ks \<subseteq> {..<length xs} \<Longrightarrow>
   fold (\<lambda>k m. m(ns ! k \<mapsto> map f xs ! k)) ks (\<lambda>a. map_option f (m a)) =
     (\<lambda>a. map_option f (fold (\<lambda>k m. m(ns ! k \<mapsto> xs ! k)) ks m a))"
proof (induction ks arbitrary: m)
  case Nil
  show ?case by simp
next
  case (Cons k ks)
  from Cons.prems have k: "k < length xs" and ks: "set ks \<subseteq> {..<length xs}" by auto
  have "(\<lambda>a. map_option f (m a))(ns ! k \<mapsto> map f xs ! k) =
      (\<lambda>a. map_option f ((m(ns ! k \<mapsto> xs ! k)) a))"
    using k by (auto simp: fun_eq_iff)
  then show ?case using Cons.IH [OF ks, of "m(ns ! k \<mapsto> xs ! k)"] by (simp del: fun_upd_apply)
qed

lemma index_collect_map:
  "index_collect ix (map f xs) = (\<lambda>a. map_option f (index_collect ix xs a))"
proof -
  have "set [0..<length xs] \<subseteq> {..<length xs}" by auto
  from collect_fold_map [OF this, of "nodes ix" f Map.empty] show ?thesis
    by (simp add: index_collect_def)
qed

lemma resolved_normalized:
  "truthy_flag (normalized (resolveDefaults (Some (opts\<lparr>normalized := Some b\<rparr>)) DEFAULTS_NODE)) = b"
  "truthy_flag (normalized (resolveDefaults (Some (opts\<lparr>normalized := Some b\<rparr>)) DEFAULTS_EDGE)) = b"
  by (simp_all add: resolveDefaults_def DEFAULTS_NODE_def DEFAULTS_EDGE_def resolve_key_def)

lemma create_brandes_normalized:
  "create_brandes l g (resolveDefaults (Some (opts\<lparr>normalized := x\<rparr>)) D) =
   create_brandes l g (resolveDefaults (Some opts) D)"
  by (simp add: create_brandes_def resolveDefaults_def)

lemma node_rescaled_factor:
  "node_rescaled True g raw =
     map (\<lambda>x. x * (orientation_factor g * node_normalization (order g))) (node_rescaled False g raw)"
  by (simp add: node_rescaled_def orientation_factor_def node_normalization_def o_def)

lemma edge_rescaled_factor:
  "e \<in> set (edges g) \<Longrightarrow>
   edge_rescaled True g totals e =
     map_option (\<lambda>x. x * (orientation_factor g * edge_normalization (order g)))
       (edge_rescaled False g totals e)"
  by (cases "totals e")
     (simp_all add: edge_rescaled_def orientation_factor_def edge_normalization_def scale_edges_def)

lemma path_run:
  "snd (betweennessCentrality path_lib (Graph path_graph)
          (Some (no_weight_options\<lparr>normalized := Some b\<rparr>))) =
     Inr (Mapping (index_collect path_indexer (node_rescaled b path_graph [0, 4, 4, 0])))"
proof -
  have c: "create_brandes path_lib path_graph
      (resolveDefaults (Some (no_weight_options\<lparr>normalized := Some b\<rparr>)) DEFAULTS_NODE) =
      Inr path_indexer"
    by (simp add: create_brandes_def path_lib_def)
  have l: "length [0, 4, 4, 0::real] = order path_graph" by (simp add: path_graph_def)
  show ?thesis
    by (simp add: betweennessCentrality_def node_unfold c path_node_sources
        resolved_normalized rescale_node_rescaled [OF l] Let_def)
qed

lemma path_values:
  "value_at ''B'' (snd (betweennessCentrality path_lib (Graph path_graph)
          (Some (no_weight_options\<lparr>normalized := Some True\<rparr>)))) = Some (2 / 3)"
  "value_at ''B'' (snd (betweennessCentrality path_lib (Graph path_graph)
          (Some (no_weight_options\<lparr>normalized := Some False\<rparr>)))) = Some 2"
  "value_at ''B'' (map_sum id (scale_returned (node_normalization (order path_graph)))
       (snd (betweennessCentrality path_lib (Graph path_graph)
          (Some (no_weight_options\<lparr>normalized := Some False\<rparr>))))) = Some (1 / 3)"
  by (simp_all only: path_run)
     (simp_all add: index_collect_def node_rescaled_def path_graph_def path_indexer_def
      node_normalization_def eval_nat_numeral upt_rec)

text \<open>
  C9, as the code has it. With otherwise identical options, the normalized output is the
  raw output multiplied entrywise by the normalization scale factor and, when the graph is
  undirected, by 2: the raw output of an undirected graph is already halved, and the
  normalized output is not. A call that throws, throws the same error under both
  settings. For the edge function the entries compared are those of the graph's edges,
  each enumerated once.
\<close>

theorem normalized_is_scaled_raw:
  "snd (betweennessCentrality l (Graph g) (Some (opts\<lparr>normalized := Some True\<rparr>))) =
     map_sum id (scale_returned (orientation_factor g * node_normalization (order g)))
       (snd (betweennessCentrality l (Graph g) (Some (opts\<lparr>normalized := Some False\<rparr>)))) \<and>
   (distinct (edges g) \<longrightarrow>
    map_sum id (restrict_returned (edges g))
       (snd (edgeBetweennessCentrality l (Graph g) (Some (opts\<lparr>normalized := Some True\<rparr>)))) =
     map_sum id (restrict_returned (edges g))
       (map_sum id (scale_returned (orientation_factor g * edge_normalization (order g)))
          (snd (edgeBetweennessCentrality l (Graph g) (Some (opts\<lparr>normalized := Some False\<rparr>))))))"
proof (intro conjI impI)
  show "snd (betweennessCentrality l (Graph g) (Some (opts\<lparr>normalized := Some True\<rparr>))) =
     map_sum id (scale_returned (orientation_factor g * node_normalization (order g)))
       (snd (betweennessCentrality l (Graph g) (Some (opts\<lparr>normalized := Some False\<rparr>))))"
  proof (cases "create_brandes l g (resolveDefaults (Some opts) DEFAULTS_NODE)")
    case (Inl e)
    then show ?thesis
      by (simp add: betweennessCentrality_def node_unfold create_brandes_normalized Let_def)
  next
    case (Inr ix)
    show ?thesis
    proof (cases "node_sources (brandes ix) (order g) 0 (replicate (order g) 0, replicate (order g) 0)")
      case (Inl e)
      with Inr show ?thesis
        by (simp add: betweennessCentrality_def node_unfold create_brandes_normalized Let_def)
    next
      case st: (Inr st)
      from node_sources_lengths [OF st] have len: "length (snd st) = order g" by simp
      show ?thesis
        using Inr st
        by (simp add: betweennessCentrality_def node_unfold create_brandes_normalized Let_def
            resolved_normalized rescale_node_rescaled [OF len]
            node_rescaled_factor [of g "snd st"] index_collect_map)
    qed
  qed
next
  assume d: "distinct (edges g)"
  show "map_sum id (restrict_returned (edges g))
       (snd (edgeBetweennessCentrality l (Graph g) (Some (opts\<lparr>normalized := Some True\<rparr>)))) =
     map_sum id (restrict_returned (edges g))
       (map_sum id (scale_returned (orientation_factor g * edge_normalization (order g)))
          (snd (edgeBetweennessCentrality l (Graph g) (Some (opts\<lparr>normalized := Some False\<rparr>)))))"
  proof (cases "create_brandes l g (resolveDefaults (Some opts) DEFAULTS_EDGE)")
    case (Inl e)
    then show ?thesis
      by (simp add: edgeBetweennessCentrality_def edge_unfold create_brandes_normalized Let_def)
  next
    case (Inr ix)
    show ?thesis
    proof (cases "edge_sources g (nodes ix) (brandes ix) (order g) 0
                    (replicate (order g) 0, initial_edgeCentralities g)")
      case (Inl e)
      with Inr show ?thesis
        by (simp add: edgeBetweennessCentrality_def edge_unfold create_brandes_normalized Let_def)
    next
      case st: (Inr st)
      from edge_sources_initial(1, 2) [OF st]
      have sub: "list_all (\<lambda>e. e \<noteq> ''__proto__'' \<longrightarrow> e \<in> dom (snd st)) (edges g)"
        and p: "snd st ''__proto__'' = None" .
      show ?thesis
        using Inr st
        by (simp add: edgeBetweennessCentrality_def edge_unfold create_brandes_normalized Let_def
            resolved_normalized rescale_edges_edge_rescaled [OF d sub p] fun_eq_iff
            edge_rescaled_factor)
    qed
  qed
qed

theorem normalized_is_scaled_raw_witness:
  "distinct (edges detour_graph) \<and>
   orientation_factor detour_graph * node_normalization (order detour_graph) = 1 / 2 \<and>
   orientation_factor detour_graph * edge_normalization (order detour_graph) = 1 / 6 \<and>
   snd (betweennessCentrality detour_lib (Graph detour_graph)
          (Some (empty_options\<lparr>normalized := Some True\<rparr>))) =
     map_sum id (scale_returned (1 / 2))
       (snd (betweennessCentrality detour_lib (Graph detour_graph)
          (Some (empty_options\<lparr>normalized := Some False\<rparr>)))) \<and>
   map_sum id (restrict_returned (edges detour_graph))
       (snd (edgeBetweennessCentrality detour_lib (Graph detour_graph)
          (Some (empty_options\<lparr>normalized := Some True\<rparr>)))) =
     map_sum id (restrict_returned (edges detour_graph))
       (map_sum id (scale_returned (1 / 6))
          (snd (edgeBetweennessCentrality detour_lib (Graph detour_graph)
             (Some (empty_options\<lparr>normalized := Some False\<rparr>)))))"
proof -
  have d: "distinct (edges detour_graph)" by (simp add: detour_graph_def)
  have n: "orientation_factor detour_graph * node_normalization (order detour_graph) = 1 / 2"
    and e: "orientation_factor detour_graph * edge_normalization (order detour_graph) = 1 / 6"
    by (simp_all add: orientation_factor_def node_normalization_def edge_normalization_def
        detour_graph_def)
  from normalized_is_scaled_raw [of detour_lib detour_graph empty_options] d
  show ?thesis unfolding n e by simp
qed

text \<open>
  C9 as the specification states it fails on the undirected path \<open>A - B - C - D\<close>: the
  normalized centrality of \<open>B\<close> is \<open>2/3\<close>, the raw one is 2, and 2 times the scale
  factor \<open>1/6\<close> is \<open>1/3\<close>.
\<close>

theorem raw_times_scale_counterexample:
  "snd (betweennessCentrality path_lib (Graph path_graph)
          (Some (no_weight_options\<lparr>normalized := Some True\<rparr>))) \<noteq>
   map_sum id (scale_returned (node_normalization (order path_graph)))
       (snd (betweennessCentrality path_lib (Graph path_graph)
          (Some (no_weight_options\<lparr>normalized := Some False\<rparr>))))"
proof
  assume "snd (betweennessCentrality path_lib (Graph path_graph)
          (Some (no_weight_options\<lparr>normalized := Some True\<rparr>))) =
   map_sum id (scale_returned (node_normalization (order path_graph)))
       (snd (betweennessCentrality path_lib (Graph path_graph)
          (Some (no_weight_options\<lparr>normalized := Some False\<rparr>))))"
  then have "value_at ''B'' (snd (betweennessCentrality path_lib (Graph path_graph)
          (Some (no_weight_options\<lparr>normalized := Some True\<rparr>)))) =
     value_at ''B'' (map_sum id (scale_returned (node_normalization (order path_graph)))
       (snd (betweennessCentrality path_lib (Graph path_graph)
          (Some (no_weight_options\<lparr>normalized := Some False\<rparr>)))))"
    by (rule arg_cong)
  then show False by (simp only: path_values) simp
qed

end
